theory Spec2Isabelle
  imports Main "HOL-Library.AList"
begin

section \<open>Python values used by the authorization code\<close>

text \<open>
  Caller identities are Python integers (Telegram user ids); the store keeps identities as
  strings, and every comparison in \<^verbatim>\<open>handlers.py\<close> goes through \<^verbatim>\<open>str(user_id)\<close>.
  \<open>py_str\<close> is Python's \<^verbatim>\<open>str\<close> on an \<^verbatim>\<open>int\<close>: the decimal digits, most significant
  first, with a leading minus sign for a negative number.
\<close>

definition digit_char :: "nat \<Rightarrow> char" where
  "digit_char d = ''0123456789'' ! d"

fun str_nat :: "nat \<Rightarrow> string" where
  "str_nat n = (if n < 10 then [digit_char n] else str_nat (n div 10) @ [digit_char (n mod 10)])"

declare str_nat.simps [simp del]

definition py_str :: "int \<Rightarrow> string" where
  "py_str i = (if i < 0 then CHR ''-'' # str_nat (nat (- i)) else str_nat (nat i))"

text \<open>Truth value of an \<^verbatim>\<open>int | None\<close> argument: \<^verbatim>\<open>None\<close> and \<^verbatim>\<open>0\<close> are falsy.\<close>

fun int_truthy :: "int option \<Rightarrow> bool" where
  "int_truthy None = False"
| "int_truthy (Some i) = (i \<noteq> 0)"

text \<open>Truth value of a \<^verbatim>\<open>str | None\<close> attribute: \<^verbatim>\<open>None\<close> and the empty string are falsy.\<close>

fun str_truthy :: "string option \<Rightarrow> bool" where
  "str_truthy None = False"
| "str_truthy (Some v) = (v \<noteq> [])"


section \<open>The store: \<^verbatim>\<open>models.py\<close>\<close>

text \<open>
  A row of the table \<^verbatim>\<open>tenants\<close> (class \<^verbatim>\<open>Tenant\<close>). The column \<^verbatim>\<open>id\<close> is the primary key;
  it is called \<open>tenant_id\<close> here because \<open>id\<close> is the identity function of HOL.
  \<^verbatim>\<open>is_active\<close> is a Boolean column; a NULL flag matches neither of the two filters the code
  uses and is read as \<open>False\<close>.
\<close>

record tenant =
  tenant_id :: int
  name :: string
  cloudflare_token :: string
  admin_user_id :: string
  description :: "string option"
  is_active :: bool
  created_at :: int

text \<open>
  The database engine behind \<^verbatim>\<open>DATABASE_URL\<close>. Without the variable \<^verbatim>\<open>bot.py\<close> takes
  \<^verbatim>\<open>sqlite+aiosqlite:///dns_bot.db\<close>; a PostgreSQL URL stands for the engines that type the
  column as a boolean.
\<close>

datatype dialect = SQLite | PostgreSQL

text \<open>
  The database behind the session factory: its engine, the rows of \<^verbatim>\<open>tenants\<close> in table
  order and the table \<^verbatim>\<open>bot_config\<close> as a map from its primary key \<^verbatim>\<open>key\<close> to the nullable
  column \<^verbatim>\<open>value\<close> (the time stamp \<^verbatim>\<open>updated_at\<close> is never read and is left out).
\<close>

record database =
  dialect :: dialect
  tenants :: "tenant list"
  bot_config :: "string \<rightharpoonup> string option"


section \<open>The manager object: \<^verbatim>\<open>CloudflareManager\<close>\<close>

text \<open>
  The values the Cloudflare client hands back are duck-typed in the source: the code asks
  for attributes with \<^verbatim>\<open>hasattr\<close>, tests truth values and list-ness. They are modelled by
  one universe of Python values: \<^verbatim>\<open>None\<close>, a string, a list, or an object of the client
  library, given by its attributes and, when it defines \<^verbatim>\<open>__iter__\<close>, the items that
  iterating it yields. Such objects are compared by value and are always truthy.
\<close>

datatype pyobj =
    PyNone
  | PyStr string
  | PyList "pyobj list"
  | PyInst "(string \<times> pyobj) list" "pyobj list option"

text \<open>A Python \<^verbatim>\<open>dict\<close>: keys in insertion order, each key once.\<close>

type_synonym pydict = "(pyobj \<times> pyobj) list"

text \<open>An entry of \<^verbatim>\<open>tenants_cache\<close>: the dict literal the refresh stores.\<close>

record cache_entry =
  tenant :: tenant
  domains :: pydict
  zones :: pydict
  tunnels :: pydict
  account_id :: pyobj

text \<open>
  \<^verbatim>\<open>SessionLocal\<close> is \<^verbatim>\<open>None\<close> until the database is set up; afterwards it is the session
  factory, through which the object reaches the database. The model keeps the database
  under the handle: \<open>None\<close> is the unset attribute, \<open>Some db\<close> a factory onto \<open>db\<close>.
\<close>

record manager =
  super_admin_id :: "string option"
  SessionLocal :: "database option"
  tenants_cache :: "int \<rightharpoonup> cache_entry"


subsection \<open>Configuration and the super administrator\<close>

text \<open>\<^verbatim>\<open>set_config\<close>: an upsert of the row \<^verbatim>\<open>key\<close>; nothing happens without a session factory.\<close>

definition set_config :: "manager \<Rightarrow> string \<Rightarrow> string \<Rightarrow> manager" where
  "set_config s k v =
     (case SessionLocal s of
        None \<Rightarrow> s
      | Some db \<Rightarrow> s\<lparr>SessionLocal := Some (db\<lparr>bot_config := (bot_config db)(k \<mapsto> Some v)\<rparr>)\<rparr>)"

text \<open>\<^verbatim>\<open>get_config\<close>: the value of the row \<^verbatim>\<open>key\<close>, \<^verbatim>\<open>None\<close> when there is no row.\<close>

definition get_config :: "manager \<Rightarrow> string \<Rightarrow> string option" where
  "get_config s k =
     (case SessionLocal s of
        None \<Rightarrow> None
      | Some db \<Rightarrow> (case bot_config db k of None \<Rightarrow> None | Some v \<Rightarrow> v))"

text \<open>
  \<^verbatim>\<open>is_super_admin\<close> returns its answer and the manager as the call leaves it: the call may
  adopt the identity found in \<^verbatim>\<open>bot_config\<close>, or, when there is none, write the caller's.
\<close>

definition is_super_admin :: "manager \<Rightarrow> int \<Rightarrow> bool \<times> manager" where
  "is_super_admin s user_id =
     (if \<not> str_truthy (super_admin_id s) then
        (case SessionLocal s of
           None \<Rightarrow> (False, s)
         | Some db \<Rightarrow>
             (case bot_config db ''super_admin_id'' of
                Some v \<Rightarrow> (Some (py_str user_id) = v, s\<lparr>super_admin_id := v\<rparr>)
              | None \<Rightarrow>
                  (True, (set_config s ''super_admin_id'' (py_str user_id))
                           \<lparr>super_admin_id := Some (py_str user_id)\<rparr>)))
      else (Some (py_str user_id) = super_admin_id s, s))"


subsection \<open>Tenant administrators\<close>

text \<open>
  The textual queries of \<^verbatim>\<open>is_tenant_admin\<close> filter with \<^verbatim>\<open>is_active = 'true'\<close>: the Boolean
  column of \<^verbatim>\<open>models.py\<close> against a string literal. PostgreSQL reads the literal as a
  boolean, so the rows with the flag set match. SQLite keeps the flag as the integer
  \<^verbatim>\<open>1\<close> or \<^verbatim>\<open>0\<close> (the ORM writes \<^verbatim>\<open>True\<close> as \<^verbatim>\<open>1\<close>), the text \<^verbatim>\<open>'true'\<close> is no number, and an
  integer never equals a text there: no row matches.
\<close>

fun is_active_eq_true :: "dialect \<Rightarrow> bool \<Rightarrow> bool" where
  "is_active_eq_true PostgreSQL flag = flag"
| "is_active_eq_true SQLite flag = False"

text \<open>
  The rows an ORM query over \<^verbatim>\<open>tenants\<close> selects, in table order. Its activity filter
  \<^verbatim>\<open>Tenant.is_active.is_(True)\<close> is typed by the ORM and holds for the rows with the flag set
  on either engine.
\<close>

definition select_tenants :: "manager \<Rightarrow> (tenant \<Rightarrow> bool) \<Rightarrow> tenant list" where
  "select_tenants s p =
     (case SessionLocal s of None \<Rightarrow> [] | Some db \<Rightarrow> filter p (tenants db))"

text \<open>
  \<^verbatim>\<open>is_tenant_admin\<close>: with a truthy \<^verbatim>\<open>tenant_id\<close> the first active row with that id is
  fetched and its admin compared; otherwise the active rows of the caller are counted.
\<close>

definition is_tenant_admin :: "manager \<Rightarrow> int \<Rightarrow> int option \<Rightarrow> bool" where
  "is_tenant_admin s user_id tid =
     (case SessionLocal s of
        None \<Rightarrow> False
      | Some db \<Rightarrow>
          if int_truthy tid then
            (case filter (\<lambda>r. Some (tenant_id r) = tid
                                 \<and> is_active_eq_true (dialect db) (is_active r)) (tenants db) of
               [] \<Rightarrow> False
             | r # _ \<Rightarrow> admin_user_id r = py_str user_id)
          else
            0 < length (filter (\<lambda>r. admin_user_id r = py_str user_id
                                   \<and> is_active_eq_true (dialect db) (is_active r)) (tenants db)))"

text \<open>\<^verbatim>\<open>has_access\<close>: the super administrator, or else the tenant check.\<close>

definition has_access :: "manager \<Rightarrow> int \<Rightarrow> int option \<Rightarrow> bool \<times> manager" where
  "has_access s user_id tid =
     (case is_super_admin s user_id of
        (True, s') \<Rightarrow> (True, s')
      | (False, s') \<Rightarrow>
          if int_truthy tid then (is_tenant_admin s' user_id tid, s')
          else (is_tenant_admin s' user_id None, s'))"

text \<open>
  \<^verbatim>\<open>get_tenants\<close>: the admin filter is added only for a truthy \<^verbatim>\<open>user_id\<close> that is not the
  super administrator (the test calls \<^verbatim>\<open>is_super_admin\<close>, with its effect); the activity
  filter is always added.
\<close>

definition get_tenants :: "manager \<Rightarrow> int option \<Rightarrow> tenant list \<times> manager" where
  "get_tenants s user_id =
     (case SessionLocal s of
        None \<Rightarrow> ([], s)
      | Some db \<Rightarrow>
          (case user_id of
             None \<Rightarrow> (select_tenants s is_active, s)
           | Some u \<Rightarrow>
               if u \<noteq> 0 then
                 (case is_super_admin s u of
                    (True, s') \<Rightarrow> (select_tenants s' is_active, s')
                  | (False, s') \<Rightarrow>
                      (select_tenants s' (\<lambda>r. admin_user_id r = py_str u \<and> is_active r), s'))
               else (select_tenants s is_active, s)))"


section \<open>Refreshing the cache: \<^verbatim>\<open>refresh_tenant_domains\<close>\<close>

subsection \<open>Exceptions\<close>

text \<open>
  The exceptions the modelled code can meet: the two Python raises on values, the
  \<^verbatim>\<open>scalar_one_or_none\<close> failure of the ORM, what the database driver raises for an
  integer parameter it cannot bind (\<^verbatim>\<open>OverflowError\<close> from the SQLite driver, a
  \<^verbatim>\<open>DBAPIError\<close> around the PostgreSQL driver's), and whatever a call of the Cloudflare
  client raises, with its message. All of them are instances of \<^verbatim>\<open>Exception\<close>.
\<close>

datatype exn =
    AttributeError
  | TypeError
  | MultipleResultsFound
  | OverflowError
  | DBAPIError
  | APIError string

subsection \<open>Duck typing\<close>

text \<open>
  \<^verbatim>\<open>hasattr\<close> and attribute access, exact for the names the code asks for
  (\<^verbatim>\<open>result\<close>, \<^verbatim>\<open>account\<close>, \<^verbatim>\<open>id\<close>, \<^verbatim>\<open>name\<close>, \<^verbatim>\<open>__iter__\<close>): lists and strings
  have \<^verbatim>\<open>__iter__\<close> and none of the others, \<^verbatim>\<open>None\<close> has none of them. Whether an object
  has \<^verbatim>\<open>__iter__\<close> is told by its second component alone.
\<close>

fun py_hasattr :: "pyobj \<Rightarrow> string \<Rightarrow> bool" where
  "py_hasattr (PyInst attrs it) a =
     (if a = ''__iter__'' then it \<noteq> None else map_of attrs a \<noteq> None)"
| "py_hasattr (PyList xs) a = (a = ''__iter__'')"
| "py_hasattr (PyStr v) a = (a = ''__iter__'')"
| "py_hasattr PyNone a = False"

fun py_getattr :: "pyobj \<Rightarrow> string \<Rightarrow> exn + pyobj" where
  "py_getattr (PyInst attrs it) a =
     (case map_of attrs a of Some v \<Rightarrow> Inr v | None \<Rightarrow> Inl AttributeError)"
| "py_getattr (PyList xs) a = Inl AttributeError"
| "py_getattr (PyStr v) a = Inl AttributeError"
| "py_getattr PyNone a = Inl AttributeError"

fun py_truthy :: "pyobj \<Rightarrow> bool" where
  "py_truthy PyNone = False"
| "py_truthy (PyStr v) = (v \<noteq> [])"
| "py_truthy (PyList xs) = (xs \<noteq> [])"
| "py_truthy (PyInst attrs it) = True"

fun is_str :: "pyobj \<Rightarrow> bool" where
  "is_str (PyStr v) = True"
| "is_str (PyNone) = False"
| "is_str (PyList xs) = False"
| "is_str (PyInst attrs it) = False"

text \<open>Iteration (\<^verbatim>\<open>list(x)\<close>, a comprehension over \<^verbatim>\<open>x\<close>); a value without \<^verbatim>\<open>__iter__\<close> raises.\<close>

fun py_iter :: "pyobj \<Rightarrow> exn + pyobj list" where
  "py_iter (PyList xs) = Inr xs"
| "py_iter (PyInst attrs (Some items)) = Inr items"
| "py_iter (PyInst attrs None) = Inl TypeError"
| "py_iter (PyStr v) = Inr (map (\<lambda>c. PyStr [c]) v)"
| "py_iter PyNone = Inl TypeError"

text \<open>
  Hashing, as a dict key needs it: \<^verbatim>\<open>None\<close> and strings hash; lists do not, and neither
  do objects compared by value.
\<close>

fun py_hashable :: "pyobj \<Rightarrow> bool" where
  "py_hashable PyNone = True"
| "py_hashable (PyStr v) = True"
| "py_hashable (PyList xs) = False"
| "py_hashable (PyInst attrs it) = False"

text \<open>\<^verbatim>\<open>d[k] = v\<close>: an existing key keeps its place, a new one goes last.\<close>

definition dict_set :: "pydict \<Rightarrow> pyobj \<Rightarrow> pyobj \<Rightarrow> exn + pydict" where
  "dict_set d k v = (if py_hashable k then Inr (AList.update k v d) else Inl TypeError)"

text \<open>The idiom \<^verbatim>\<open>hasattr(x, a) and x.a\<close>: the attribute's value when it is there and truthy.\<close>

definition truthy_attr :: "pyobj \<Rightarrow> string \<Rightarrow> pyobj option" where
  "truthy_attr x a =
     (if py_hasattr x a then
        (case py_getattr x a of Inr v \<Rightarrow> if py_truthy v then Some v else None | Inl e \<Rightarrow> None)
      else None)"

subsection \<open>The store lookup\<close>

text \<open>
  The integers an engine takes for the column \<^verbatim>\<open>id\<close>: SQLite binds 64-bit signed
  integers; on PostgreSQL the parameter has the column's type \<^verbatim>\<open>INTEGER\<close>, 32 bits. For a
  Python \<^verbatim>\<open>int\<close> outside the range the driver raises before any row is read.
\<close>

fun id_in_range :: "dialect \<Rightarrow> int \<Rightarrow> bool" where
  "id_in_range SQLite i = (- (2 ^ 63) \<le> i \<and> i < 2 ^ 63)"
| "id_in_range PostgreSQL i = (- (2 ^ 31) \<le> i \<and> i < 2 ^ 31)"

fun bind_error :: "dialect \<Rightarrow> exn" where
  "bind_error SQLite = OverflowError"
| "bind_error PostgreSQL = DBAPIError"

text \<open>
  \<^verbatim>\<open>get_tenant_by_id\<close>: \<^verbatim>\<open>None\<close> without a session factory; else the query is run with the
  id as its parameter and gives the row with this id, whatever its activity flag;
  \<^verbatim>\<open>scalar_one_or_none\<close> raises when more than one row comes back.
\<close>

definition get_tenant_by_id :: "manager \<Rightarrow> int \<Rightarrow> exn + tenant option" where
  "get_tenant_by_id s tid =
     (case SessionLocal s of
        None \<Rightarrow> Inr None
      | Some db \<Rightarrow>
          if \<not> id_in_range (dialect db) tid then Inl (bind_error (dialect db))
          else
            (case filter (\<lambda>r. tenant_id r = tid) (tenants db) of
               [] \<Rightarrow> Inr None
             | [r] \<Rightarrow> Inr (Some r)
             | r # r' # rs \<Rightarrow> Inl MultipleResultsFound))"

subsection \<open>The remote gateway\<close>

text \<open>
  The three calls of the Cloudflare client that the refresh makes, as functions of the API
  token (and, for tunnels, the account id): each returns a value or raises.
\<close>

record gateway =
  zones_list :: "string \<Rightarrow> exn + pyobj"
  accounts_list :: "string \<Rightarrow> exn + pyobj"
  tunnels_list :: "string \<Rightarrow> pyobj \<Rightarrow> exn + pyobj"

text \<open>The calls a refresh has made, in order.\<close>

datatype call = ZonesList string | AccountsList string | TunnelsList string pyobj

subsection \<open>Account id\<close>

text \<open>\<^verbatim>\<open>zone.account.id\<close> when the zone has a truthy \<^verbatim>\<open>account\<close>, else the initial \<^verbatim>\<open>None\<close>.\<close>

definition zone_account_id :: "pyobj \<Rightarrow> exn + pyobj" where
  "zone_account_id zone =
     (case truthy_attr zone ''account'' of
        Some acc \<Rightarrow> py_getattr acc ''id''
      | None \<Rightarrow> Inr PyNone)"

text \<open>The account id read off the first zone of the listing.\<close>

definition account_id_of_zones :: "pyobj \<Rightarrow> exn + pyobj" where
  "account_id_of_zones zs =
     (case truthy_attr zs ''result'' of
        Some r \<Rightarrow> zone_account_id (case r of PyList (z # rest) \<Rightarrow> z | _ \<Rightarrow> r)
      | None \<Rightarrow> (case zs of PyList (z # rest) \<Rightarrow> zone_account_id z | _ \<Rightarrow> Inr PyNone))"

text \<open>
  The body of the fallback's \<^verbatim>\<open>try\<close>: the id of the first account, \<open>None\<close> when the answer
  has no truthy \<^verbatim>\<open>result\<close> and nothing is assigned.
\<close>

definition first_account_id :: "pyobj \<Rightarrow> exn + pyobj option" where
  "first_account_id accounts =
     (case truthy_attr accounts ''result'' of
        Some r \<Rightarrow>
          (case py_getattr (case r of PyList (a # rest) \<Rightarrow> a | _ \<Rightarrow> r) ''id'' of
             Inl e \<Rightarrow> Inl e
           | Inr v \<Rightarrow> Inr (Some v))
      | None \<Rightarrow> Inr None)"

text \<open>
  The fallback: only for a falsy account id; every exception inside is logged and dropped,
  and the account id keeps the value it had.
\<close>

definition fetch_account_id :: "gateway \<Rightarrow> string \<Rightarrow> pyobj \<Rightarrow> call list \<times> pyobj" where
  "fetch_account_id g tok acc =
     (if \<not> py_truthy acc then
        ([AccountsList tok],
         (case accounts_list g tok of
            Inl e \<Rightarrow> acc
          | Inr accounts \<Rightarrow>
              (case first_account_id accounts of
                 Inl e \<Rightarrow> acc
               | Inr None \<Rightarrow> acc
               | Inr (Some v) \<Rightarrow> v)))
      else ([], acc))"

subsection \<open>Tunnels\<close>

text \<open>
  \<^verbatim>\<open>tunnels\<close> starts as the empty list and is replaced only by a successful listing, which
  is asked for only with a truthy account id.
\<close>

definition fetch_tunnels :: "gateway \<Rightarrow> string \<Rightarrow> pyobj \<Rightarrow> call list \<times> pyobj" where
  "fetch_tunnels g tok acc =
     (if py_truthy acc then
        ([TunnelsList tok acc],
         (case tunnels_list g tok acc of Inl e \<Rightarrow> PyList [] | Inr ts \<Rightarrow> ts))
      else ([], PyList []))"

subsection \<open>Building the indices\<close>

text \<open>
  The blocks "Handle zones" and "Handle tunnels" turn an answer into a list the same way:
  the items of a truthy \<^verbatim>\<open>result\<close>, or the items of the answer itself, or the answer
  alone.
\<close>

definition as_list :: "pyobj \<Rightarrow> exn + pyobj list" where
  "as_list x =
     (case truthy_attr x ''result'' of
        Some r \<Rightarrow> if py_hasattr r ''__iter__'' \<and> \<not> is_str r then py_iter r else Inr [r]
      | None \<Rightarrow>
          if py_hasattr x ''__iter__'' \<and> \<not> is_str x then py_iter x
          else Inr (if py_truthy x then [x] else []))"

text \<open>
  The loop over \<^verbatim>\<open>zones_list\<close>, with \<^verbatim>\<open>zones_dict\<close> and \<^verbatim>\<open>domains_dict\<close> as accumulators:
  a zone with both \<^verbatim>\<open>id\<close> and \<^verbatim>\<open>name\<close> is stored under each.
\<close>

fun index_zones :: "pyobj list \<Rightarrow> pydict \<Rightarrow> pydict \<Rightarrow> exn + (pydict \<times> pydict)" where
  "index_zones [] zd dd = Inr (zd, dd)"
| "index_zones (z # zs) zd dd =
     (if py_hasattr z ''id'' \<and> py_hasattr z ''name'' then
        (case py_getattr z ''id'' of
           Inl e \<Rightarrow> Inl e
         | Inr i \<Rightarrow>
             (case dict_set zd i z of
                Inl e \<Rightarrow> Inl e
              | Inr zd' \<Rightarrow>
                  (case py_getattr z ''name'' of
                     Inl e \<Rightarrow> Inl e
                   | Inr n \<Rightarrow>
                       (case dict_set dd n z of
                          Inl e \<Rightarrow> Inl e
                        | Inr dd' \<Rightarrow> index_zones zs zd' dd'))))
      else index_zones zs zd dd)"

text \<open>The loop over \<^verbatim>\<open>tunnels_list\<close>: a tunnel with an \<^verbatim>\<open>id\<close> is stored under it.\<close>

fun index_tunnels :: "pyobj list \<Rightarrow> pydict \<Rightarrow> exn + pydict" where
  "index_tunnels [] td = Inr td"
| "index_tunnels (t # ts) td =
     (if py_hasattr t ''id'' then
        (case py_getattr t ''id'' of
           Inl e \<Rightarrow> Inl e
         | Inr i \<Rightarrow>
             (case dict_set td i t of
                Inl e \<Rightarrow> Inl e
              | Inr td' \<Rightarrow> index_tunnels ts td'))
      else index_tunnels ts td)"

text \<open>From the two answers to the cache entry; nothing of the cache is read.\<close>

definition build_entry :: "tenant \<Rightarrow> pyobj \<Rightarrow> pyobj \<Rightarrow> pyobj \<Rightarrow> exn + cache_entry" where
  "build_entry t zs ts acc =
     (case as_list zs of
        Inl e \<Rightarrow> Inl e
      | Inr zones_list' \<Rightarrow>
          (case as_list ts of
             Inl e \<Rightarrow> Inl e
           | Inr tunnels_list' \<Rightarrow>
               (case index_zones zones_list' [] [] of
                  Inl e \<Rightarrow> Inl e
                | Inr (zones_dict, domains_dict) \<Rightarrow>
                    (case index_tunnels tunnels_list' [] of
                       Inl e \<Rightarrow> Inl e
                     | Inr tunnels_dict \<Rightarrow>
                         Inr \<lparr>tenant = t, domains = domains_dict, zones = zones_dict,
                              tunnels = tunnels_dict, account_id = acc\<rparr>))))"

subsection \<open>The refresh\<close>

text \<open>
  The \<^verbatim>\<open>try\<close> block up to the assignment to \<^verbatim>\<open>tenants_cache\<close>: the calls made and either
  the exception that leaves the block or the entry to store.
\<close>

definition refresh_body :: "gateway \<Rightarrow> tenant \<Rightarrow> call list \<times> (exn + cache_entry)" where
  "refresh_body g t =
     (let tok = cloudflare_token t in
      case zones_list g tok of
        Inl e \<Rightarrow> ([ZonesList tok], Inl e)
      | Inr zs \<Rightarrow>
          (case account_id_of_zones zs of
             Inl e \<Rightarrow> ([ZonesList tok], Inl e)
           | Inr acc0 \<Rightarrow>
               (case fetch_account_id g tok acc0 of
                  (calls1, acc) \<Rightarrow>
                    (case fetch_tunnels g tok acc of
                       (calls2, ts) \<Rightarrow>
                         (ZonesList tok # calls1 @ calls2, build_entry t zs ts acc)))))"

text \<open>
  \<^verbatim>\<open>refresh_tenant_domains\<close>: what the caller sees (a return or the exception raised), the
  manager afterwards, and the gateway calls made. The lookup is outside the \<^verbatim>\<open>try\<close>; an
  exception inside it is logged and raised again.
\<close>

definition refresh_tenant_domains ::
    "gateway \<Rightarrow> manager \<Rightarrow> int \<Rightarrow> (exn + unit) \<times> manager \<times> call list" where
  "refresh_tenant_domains g s tid =
     (case get_tenant_by_id s tid of
        Inl e \<Rightarrow> (Inl e, s, [])
      | Inr None \<Rightarrow> (Inr (), s, [])
      | Inr (Some t) \<Rightarrow>
          (case refresh_body g t of
             (calls, Inl e) \<Rightarrow> (Inl e, s, calls)
           | (calls, Inr entry) \<Rightarrow>
               (Inr (), s\<lparr>tenants_cache := (tenants_cache s)(tid \<mapsto> entry)\<rparr>, calls)))"


section \<open>Notions used in the statements\<close>

text \<open>The primary key of \<^verbatim>\<open>tenants\<close>: no two rows share an id.\<close>

definition primary_key :: "manager \<Rightarrow> bool" where
  "primary_key s =
     (case SessionLocal s of None \<Rightarrow> True | Some db \<Rightarrow> distinct (map tenant_id (tenants db)))"

text \<open>The engine reads the literal \<^verbatim>\<open>'true'\<close> of the textual queries as a boolean.\<close>

definition literal_coerced :: "manager \<Rightarrow> bool" where
  "literal_coerced s =
     (case SessionLocal s of None \<Rightarrow> True | Some db \<Rightarrow> dialect db = PostgreSQL)"

subsection \<open>A small installation\<close>

text \<open>
  The default engine, three tenants, the third one inactive, an empty \<^verbatim>\<open>bot_config\<close>, no
  super administrator given at start-up and nothing cached.
\<close>

definition ex_tenant1 :: tenant where
  "ex_tenant1 = \<lparr>tenant_id = 7, name = ''Acme'', cloudflare_token = ''tok_abc'',
     admin_user_id = ''42'', description = None, is_active = True, created_at = 0\<rparr>"

definition ex_tenant2 :: tenant where
  "ex_tenant2 = \<lparr>tenant_id = 8, name = ''Globex'', cloudflare_token = ''tok_def'',
     admin_user_id = ''43'', description = None, is_active = True, created_at = 0\<rparr>"

definition ex_tenant3 :: tenant where
  "ex_tenant3 = \<lparr>tenant_id = 9, name = ''Initech'', cloudflare_token = ''tok_ghi'',
     admin_user_id = ''42'', description = None, is_active = False, created_at = 0\<rparr>"

definition ex_db :: database where
  "ex_db = \<lparr>dialect = SQLite, tenants = [ex_tenant1, ex_tenant2, ex_tenant3],
            bot_config = Map.empty\<rparr>"

definition ex_manager :: manager where
  "ex_manager = \<lparr>super_admin_id = None, SessionLocal = Some ex_db, tenants_cache = Map.empty\<rparr>"

text \<open>The same installation on PostgreSQL.\<close>

definition pg_manager :: manager where
  "pg_manager = ex_manager\<lparr>SessionLocal := Some (ex_db\<lparr>dialect := PostgreSQL\<rparr>)\<rparr>"

text \<open>The same again, with a super administrator given at start-up.\<close>

definition pg_manager_admin :: manager where
  "pg_manager_admin = pg_manager\<lparr>super_admin_id := Some ''1''\<rparr>"

text \<open>
  What the provider answers for the first tenant: one zone in account \<^verbatim>\<open>acc1\<close> and one tunnel,
  each listing wrapped in a page object that has \<^verbatim>\<open>result\<close> and can be iterated.
\<close>

definition ex_zone :: pyobj where
  "ex_zone = PyInst [(''id'', PyStr ''z1ize''), (''name'', PyStr ''acme.com''),
                     (''account'', PyInst [(''id'', PyStr ''acc1'')] None)] None"

definition ex_tunnel :: pyobj where
  "ex_tunnel = PyInst [(''id'', PyStr ''t1''), (''name'', PyStr ''office'')] None"

definition ex_page :: "pyobj list \<Rightarrow> pyobj" where
  "ex_page items = PyInst [(''result'', PyList items)] (Some items)"

definition ex_gateway :: gateway where
  "ex_gateway = \<lparr>zones_list = (\<lambda>tok. Inr (ex_page [ex_zone])),
                  accounts_list = (\<lambda>tok. Inl (APIError ''forbidden'')),
                  tunnels_list = (\<lambda>tok acc. Inr (ex_page [ex_tunnel]))\<rparr>"

subsection \<open>Well-formed zone listings\<close>

text \<open>The value of an attribute that is known to be there.\<close>

definition the_attr :: "string \<Rightarrow> pyobj \<Rightarrow> pyobj" where
  "the_attr a z = (case py_getattr z a of Inr v \<Rightarrow> v | Inl e \<Rightarrow> PyNone)"

text \<open>
  The zones the index loop stores are those with both attributes. Their ids and names are
  hashable when they are strings or \<^verbatim>\<open>None\<close>, as the provider sends them.
\<close>

definition zone_keys_hashable :: "pyobj list \<Rightarrow> bool" where
  "zone_keys_hashable zl =
     (\<forall>z\<in>set zl. py_hasattr z ''id'' \<and> py_hasattr z ''name'' \<longrightarrow>
        py_hashable (the_attr ''id'' z) \<and> py_hashable (the_attr ''name'' z))"

text \<open>
  Ids and names correspond one to one over the stored zones: two of them share their id
  exactly when they share their name.
\<close>

definition ids_match_names :: "pyobj list \<Rightarrow> bool" where
  "ids_match_names zl =
     (\<forall>z\<in>set zl. \<forall>z'\<in>set zl.
        py_hasattr z ''id'' \<and> py_hasattr z ''name'' \<and> py_hasattr z' ''id'' \<and> py_hasattr z' ''name''
        \<longrightarrow> (py_getattr z ''id'' = py_getattr z' ''id'')
              = (py_getattr z ''name'' = py_getattr z' ''name''))"

subsection \<open>Functions used in the proofs\<close>

text \<open>
  What \<^verbatim>\<open>d[f(z)] = z\<close> does to the values of a dict that stores every value \<open>v\<close> under
  \<open>f v\<close>: the first value with the key of \<open>z\<close> is replaced, or \<open>z\<close> is added at the end.
\<close>

fun replace_by :: "('a \<Rightarrow> 'k) \<Rightarrow> 'a \<Rightarrow> 'a list \<Rightarrow> 'a list" where
  "replace_by f z [] = [z]"
| "replace_by f z (v # vs) = (if f v = f z then z # vs else v # replace_by f z vs)"

subsection \<open>Other answers of the provider\<close>

text \<open>The zone listing fails; the tunnel listing fails.\<close>

definition zones_down_gateway :: gateway where
  "zones_down_gateway = ex_gateway\<lparr>zones_list := (\<lambda>tok. Inl (APIError ''Invalid API token''))\<rparr>"

definition tunnels_down_gateway :: gateway where
  "tunnels_down_gateway =
     ex_gateway\<lparr>tunnels_list := (\<lambda>tok acc. Inl (APIError ''tunnels are not enabled''))\<rparr>"

text \<open>
  Listings with a repeated key: two zones with one name (the same domain added under two
  accounts), and two zones with one id.
\<close>

definition zone_a :: pyobj where
  "zone_a = PyInst [(''id'', PyStr ''a''), (''name'', PyStr ''x.com'')] None"

definition zone_b :: pyobj where
  "zone_b = PyInst [(''id'', PyStr ''b''), (''name'', PyStr ''x.com'')] None"

definition zone_a' :: pyobj where
  "zone_a' = PyInst [(''id'', PyStr ''a''), (''name'', PyStr ''y.com'')] None"

definition same_name_gateway :: gateway where
  "same_name_gateway = ex_gateway\<lparr>zones_list := (\<lambda>tok. Inr (PyList [zone_a, zone_b]))\<rparr>"

definition same_id_gateway :: gateway where
  "same_id_gateway = ex_gateway\<lparr>zones_list := (\<lambda>tok. Inr (PyList [zone_a, zone_a']))\<rparr>"


section \<open>Properties of \<open>py_str\<close>\<close>

text \<open>
  \<^verbatim>\<open>str\<close> is injective on integers and never returns the empty string: two callers
  with different ids have different identities, and an adopted identity is truthy.
\<close>


lemma digit_char_inj:
  assumes "a < 10" "b < 10" "digit_char a = digit_char b"
  shows "a = b"
proof -
  have A: "a \<in> {0,1,2,3,4,5,6,7,8,9}" using assms(1) by auto
  have B: "b \<in> {0,1,2,3,4,5,6,7,8,9}" using assms(2) by auto
  show ?thesis using A B assms(3) unfolding digit_char_def by auto
qed

lemma digit_char_not_minus: "d < 10 \<Longrightarrow> digit_char d \<noteq> CHR ''-''"
proof -
  assume "d < 10"
  then have A: "d \<in> {0,1,2,3,4,5,6,7,8,9}" by auto
  show ?thesis using A unfolding digit_char_def by auto
qed

lemma str_nat_nonempty: "str_nat n \<noteq> []"
  by (subst str_nat.simps) simp

lemma str_nat_length_ge2: "\<not> n < 10 \<Longrightarrow> 2 \<le> length (str_nat n)"
proof -
  assume "\<not> n < 10"
  then have "str_nat n = str_nat (n div 10) @ [digit_char (n mod 10)]"
    by (subst str_nat.simps) simp
  moreover have "1 \<le> length (str_nat (n div 10))"
    using str_nat_nonempty [of "n div 10"] by (cases "str_nat (n div 10)") auto
  ultimately show ?thesis by simp
qed

lemma str_nat_hd_not_minus: "hd (str_nat n) \<noteq> CHR ''-''"
proof (induction n rule: str_nat.induct)
  case (1 n)
  show ?case
  proof (cases "n < 10")
    case True
    then show ?thesis by (subst str_nat.simps) (simp add: digit_char_not_minus)
  next
    case False
    then have "hd (str_nat n) = hd (str_nat (n div 10))"
      by (subst str_nat.simps) (simp add: str_nat_nonempty)
    then show ?thesis using 1 False by simp
  qed
qed

lemma str_nat_inj: "str_nat n = str_nat m \<Longrightarrow> n = m"
proof (induction n arbitrary: m rule: str_nat.induct)
  case (1 n)
  show ?case
  proof (cases "n < 10")
    case True
    then have n1: "str_nat n = [digit_char n]" by (subst str_nat.simps) simp
    show ?thesis
    proof (cases "m < 10")
      case m: True
      then have "str_nat m = [digit_char m]" by (subst str_nat.simps) simp
      then show ?thesis using n1 1(2) True m digit_char_inj by simp
    next
      case False
      then show ?thesis using str_nat_length_ge2 [of m] n1 1(2) by simp
    qed
  next
    case False
    then have n2: "str_nat n = str_nat (n div 10) @ [digit_char (n mod 10)]"
      by (subst str_nat.simps) simp
    show ?thesis
    proof (cases "m < 10")
      case True
      then have "str_nat m = [digit_char m]" by (subst str_nat.simps) simp
      then show ?thesis using str_nat_length_ge2 [OF False] 1(2) by simp
    next
      case m: False
      then have "str_nat m = str_nat (m div 10) @ [digit_char (m mod 10)]"
        by (subst str_nat.simps) simp
      then have eq: "str_nat (n div 10) = str_nat (m div 10)"
        and d: "digit_char (n mod 10) = digit_char (m mod 10)"
        using n2 1(2) by simp_all
      have "n div 10 = m div 10" using 1(1) [OF False eq] .
      moreover have "n mod 10 = m mod 10" using digit_char_inj [OF _ _ d] by simp
      ultimately show ?thesis by (metis div_mult_mod_eq)
    qed
  qed
qed

lemma py_str_inj: "py_str a = py_str b \<Longrightarrow> a = b"
proof -
  assume eq: "py_str a = py_str b"
  have hd: "str_nat n \<noteq> CHR ''-'' # xs \<and> CHR ''-'' # xs \<noteq> str_nat n" for n xs
    using str_nat_hd_not_minus [of n] by (metis list.sel(1))
  show ?thesis
  proof (cases "a < 0")
    case True
    show ?thesis
    proof (cases "b < 0")
      case b: True
      then have "str_nat (nat (- a)) = str_nat (nat (- b))" using eq True by (simp add: py_str_def)
      then have "nat (- a) = nat (- b)" by (rule str_nat_inj)
      then show ?thesis using True b by simp
    next
      case False
      then show ?thesis using eq True hd [of "nat b"] by (simp add: py_str_def)
    qed
  next
    case False
    show ?thesis
    proof (cases "b < 0")
      case True
      then show ?thesis using eq False hd [of "nat a"] by (simp add: py_str_def)
    next
      case b: False
      then have "str_nat (nat a) = str_nat (nat b)" using eq False by (simp add: py_str_def)
      then have "nat a = nat b" by (rule str_nat_inj)
      then show ?thesis using False b by simp
    qed
  qed
qed

lemma py_str_nonempty: "py_str i \<noteq> []"
  by (simp add: py_str_def str_nat_nonempty)

lemma py_str_eq_iff: "py_str a = py_str b \<longleftrightarrow> a = b"
  using py_str_inj by auto

lemma py_str_42: "py_str 42 = ''42''"
  by (simp add: py_str_def str_nat.simps digit_char_def)

lemma py_str_43: "py_str 43 = ''43''"
  by (simp add: py_str_def str_nat.simps digit_char_def)

lemma py_str_44: "py_str 44 = ''44''"
  by (simp add: py_str_def str_nat.simps digit_char_def)


section \<open>Authorization\<close>

subsection \<open>Auxiliary facts\<close>

lemma py_str_truthy: "str_truthy (Some (py_str u))"
  by (simp add: py_str_nonempty)

lemma is_super_admin_settled:
  assumes "super_admin_id s = Some (py_str u)"
  shows "is_super_admin s v = (v = u, s)"
  using assms by (auto simp: is_super_admin_def py_str_nonempty py_str_eq_iff)

lemma is_super_admin_first:
  assumes "\<not> str_truthy (super_admin_id s)" and "SessionLocal s = Some db"
    and "bot_config db ''super_admin_id'' = None"
  shows "is_super_admin s u =
           (True, s\<lparr>super_admin_id := Some (py_str u),
                    SessionLocal := Some (db\<lparr>bot_config := (bot_config db)(''super_admin_id'' \<mapsto> Some (py_str u))\<rparr>)\<rparr>)"
  using assms by (simp add: is_super_admin_def set_config_def)

lemma is_super_admin_store:
  "select_tenants (snd (is_super_admin s u)) p = select_tenants s p"
  by (auto simp: is_super_admin_def select_tenants_def set_config_def split: option.splits)

lemma is_super_admin_tenant_admin:
  "is_tenant_admin (snd (is_super_admin s u)) v tid = is_tenant_admin s v tid"
  by (auto simp: is_super_admin_def is_tenant_admin_def set_config_def split: option.splits)

lemma distinct_map_eq:
  assumes "distinct (map f xs)" and "x \<in> set xs" and "y \<in> set xs" and "f x = f y"
  shows "x = y"
proof -
  have "inj_on f (set xs)" using assms(1) by (simp add: distinct_map)
  then show ?thesis using assms(4,2,3) by (rule inj_onD)
qed

lemma is_tenant_admin_sqlite:
  assumes "SessionLocal s = Some db" and "dialect db = SQLite"
  shows "\<not> is_tenant_admin s u tid"
  using assms by (simp add: is_tenant_admin_def)

lemma is_tenant_admin_iff:
  assumes "tid \<noteq> 0" and "primary_key s" and "literal_coerced s"
  shows "is_tenant_admin s u (Some tid) \<longleftrightarrow>
           (\<exists>db t. SessionLocal s = Some db \<and> t \<in> set (tenants db) \<and> tenant_id t = tid
                    \<and> is_active t \<and> admin_user_id t = py_str u)"
proof (cases "SessionLocal s")
  case None
  then show ?thesis by (simp add: is_tenant_admin_def)
next
  case (Some db)
  let ?m = "filter (\<lambda>r. Some (tenant_id r) = Some tid \<and> is_active r) (tenants db)"
  have pk: "distinct (map tenant_id (tenants db))"
    using assms(2) Some by (simp add: primary_key_def)
  have pg: "dialect db = PostgreSQL"
    using assms(3) Some by (simp add: literal_coerced_def)
  have rhs: "(\<exists>db t. SessionLocal s = Some db \<and> t \<in> set (tenants db) \<and> tenant_id t = tid
                    \<and> is_active t \<and> admin_user_id t = py_str u)
           = (\<exists>t\<in>set (tenants db). tenant_id t = tid \<and> is_active t \<and> admin_user_id t = py_str u)"
    using Some by auto
  show ?thesis
  proof (cases ?m)
    case Nil
    then have no: "\<forall>t\<in>set (tenants db). \<not> (tenant_id t = tid \<and> is_active t)"
      by (simp add: filter_empty_conv)
    have "\<not> is_tenant_admin s u (Some tid)"
      using Some Nil assms(1) pg by (simp add: is_tenant_admin_def)
    moreover have "\<not> (\<exists>t\<in>set (tenants db). tenant_id t = tid \<and> is_active t \<and> admin_user_id t = py_str u)"
      using no by blast
    ultimately show ?thesis unfolding rhs by simp
  next
    case (Cons r rs)
    have "r \<in> set ?m" using Cons by simp
    then have r: "r \<in> set (tenants db)" "tenant_id r = tid" "is_active r" by simp_all
    have val: "is_tenant_admin s u (Some tid) = (admin_user_id r = py_str u)"
      using Some Cons assms(1) pg by (simp add: is_tenant_admin_def)
    have uniq: "t = r" if "t \<in> set (tenants db)" "tenant_id t = tid" for t
      using distinct_map_eq [OF pk that(1) r(1)] that(2) r(2) by simp
    have "(\<exists>t\<in>set (tenants db). tenant_id t = tid \<and> is_active t \<and> admin_user_id t = py_str u)
          = (admin_user_id r = py_str u)"
      using r uniq by blast
    then show ?thesis unfolding rhs val by simp
  qed
qed

lemma is_tenant_admin_falsy:
  "\<not> int_truthy tid \<Longrightarrow> is_tenant_admin s u tid = is_tenant_admin s u None"
  by (cases tid) (simp_all add: is_tenant_admin_def split: option.splits)

lemma ex_primary_key: "primary_key ex_manager"
  by (simp add: primary_key_def ex_manager_def ex_db_def ex_tenant1_def ex_tenant2_def
      ex_tenant3_def)

subsection \<open>The super administrator\<close>

text \<open>
  Claim C1. Start with no super administrator configured: the attribute \<^verbatim>\<open>super_admin_id\<close>
  is falsy and the \<^verbatim>\<open>bot_config\<close> table of the connected database has no row
  \<^verbatim>\<open>super_admin_id\<close>. Then the first caller \<open>u1\<close> of \<^verbatim>\<open>is_super_admin\<close> gets \<^verbatim>\<open>True\<close> and
  the stored configuration value becomes \<^verbatim>\<open>str(u1)\<close>; every other caller \<open>u2\<close> afterwards
  gets \<^verbatim>\<open>False\<close>, and that call changes nothing, so the stored value is still \<open>u1\<close>'s.
\<close>

theorem super_admin_bootstrap:
  assumes "\<not> str_truthy (super_admin_id s)"
    and "SessionLocal s = Some db"
    and "bot_config db ''super_admin_id'' = None"
    and "u2 \<noteq> u1"
  shows "\<exists>s'. is_super_admin s u1 = (True, s')
            \<and> get_config s' ''super_admin_id'' = Some (py_str u1)
            \<and> is_super_admin s' u2 = (False, s')
            \<and> get_config (snd (is_super_admin s' u2)) ''super_admin_id'' = Some (py_str u1)"
proof -
  let ?s' = "s\<lparr>super_admin_id := Some (py_str u1),
               SessionLocal := Some (db\<lparr>bot_config := (bot_config db)(''super_admin_id'' \<mapsto> Some (py_str u1))\<rparr>)\<rparr>"
  have 1: "is_super_admin s u1 = (True, ?s')"
    using assms(1-3) by (rule is_super_admin_first)
  have 2: "get_config ?s' ''super_admin_id'' = Some (py_str u1)"
    by (simp add: get_config_def)
  have "super_admin_id ?s' = Some (py_str u1)" by simp
  then have 3: "is_super_admin ?s' u2 = (u2 = u1, ?s')"
    by (rule is_super_admin_settled)
  show ?thesis using 1 2 3 assms(4) by simp
qed

theorem super_admin_bootstrap_witness:
  "\<not> str_truthy (super_admin_id ex_manager)
 \<and> SessionLocal ex_manager = Some ex_db
 \<and> bot_config ex_db ''super_admin_id'' = None
 \<and> (\<exists>s'. is_super_admin ex_manager 42 = (True, s')
        \<and> get_config s' ''super_admin_id'' = Some (py_str 42)
        \<and> is_super_admin s' 43 = (False, s')
        \<and> get_config (snd (is_super_admin s' 43)) ''super_admin_id'' = Some (py_str 42))"
  using super_admin_bootstrap [of ex_manager ex_db 43 42]
  by (simp add: ex_manager_def ex_db_def)

subsection \<open>Tenant administrators\<close>

text \<open>
  On an engine that reads the literal as a boolean, \<^verbatim>\<open>is_tenant_admin\<close> with a non-zero
  tenant id is true exactly when the store holds an active tenant with that id whose
  \<^verbatim>\<open>admin_user_id\<close> is the caller's identity (ids being the primary key of the table), and
  administrators of different tenants are kept apart.
\<close>

lemma tenant_admin_scope_coerced:
  assumes "primary_key s" and "tid \<noteq> 0" and "literal_coerced s"
  shows "(is_tenant_admin s u (Some tid) \<longleftrightarrow>
            (\<exists>db t. SessionLocal s = Some db \<and> t \<in> set (tenants db) \<and> tenant_id t = tid
                     \<and> is_active t \<and> admin_user_id t = py_str u))
       \<and> (SessionLocal s = Some db' \<and> t1 \<in> set (tenants db') \<and> t2 \<in> set (tenants db')
            \<and> admin_user_id t1 = py_str a \<and> admin_user_id t2 = py_str b \<and> a \<noteq> b
            \<and> tenant_id t1 \<noteq> 0 \<and> tenant_id t2 \<noteq> 0
          \<longrightarrow> \<not> is_tenant_admin s a (Some (tenant_id t2))
              \<and> \<not> is_tenant_admin s b (Some (tenant_id t1))
              \<and> (is_active t1 \<longrightarrow> is_tenant_admin s a (Some (tenant_id t1))))"
proof (intro conjI impI)
  show "is_tenant_admin s u (Some tid) \<longleftrightarrow>
            (\<exists>db t. SessionLocal s = Some db \<and> t \<in> set (tenants db) \<and> tenant_id t = tid
                     \<and> is_active t \<and> admin_user_id t = py_str u)"
    using assms(2,1,3) by (rule is_tenant_admin_iff)
next
  assume h: "SessionLocal s = Some db' \<and> t1 \<in> set (tenants db') \<and> t2 \<in> set (tenants db')
            \<and> admin_user_id t1 = py_str a \<and> admin_user_id t2 = py_str b \<and> a \<noteq> b
            \<and> tenant_id t1 \<noteq> 0 \<and> tenant_id t2 \<noteq> 0"
  then have db: "SessionLocal s = Some db'" and t1: "t1 \<in> set (tenants db')"
    and t2: "t2 \<in> set (tenants db')" and a1: "admin_user_id t1 = py_str a"
    and a2: "admin_user_id t2 = py_str b" and ab: "a \<noteq> b"
    and z1: "tenant_id t1 \<noteq> 0" and z2: "tenant_id t2 \<noteq> 0"
    by simp_all
  have pk: "distinct (map tenant_id (tenants db'))"
    using assms(1) db by (simp add: primary_key_def)
  have ne: "py_str a \<noteq> py_str b" using ab by (simp add: py_str_eq_iff)
  have holder: "admin_user_id t = py_str v"
    if h1: "is_tenant_admin s v (Some (tenant_id t))" and h2: "t \<in> set (tenants db')"
      and h3: "tenant_id t \<noteq> 0" for v t
  proof -
    obtain db t' where o: "SessionLocal s = Some db" "t' \<in> set (tenants db)"
        "tenant_id t' = tenant_id t" "admin_user_id t' = py_str v"
      using is_tenant_admin_iff [OF h3 assms(1,3), of v] h1 by blast
    have "db = db'" using o(1) db by simp
    then have "t' = t" using distinct_map_eq [OF pk _ h2 o(3)] o(2) by simp
    then show ?thesis using o(4) by simp
  qed
  show "\<not> is_tenant_admin s a (Some (tenant_id t2))"
    using holder [OF _ t2 z2, of a] a2 ne by auto
  show "\<not> is_tenant_admin s b (Some (tenant_id t1))"
    using holder [OF _ t1 z1, of b] a1 ne by auto
  show "is_tenant_admin s a (Some (tenant_id t1))" if "is_active t1"
    unfolding is_tenant_admin_iff [OF z1 assms(1,3)] using db t1 a1 that by blast
qed

lemma pg_tenant_admin:
  "is_tenant_admin pg_manager 42 (Some 7) \<and> \<not> is_tenant_admin pg_manager 42 (Some 8)
 \<and> \<not> is_tenant_admin pg_manager 43 (Some 7) \<and> \<not> is_tenant_admin pg_manager 42 (Some 9)"
  by (simp add: is_tenant_admin_def pg_manager_def ex_manager_def ex_db_def ex_tenant1_def
      ex_tenant2_def ex_tenant3_def py_str_42 py_str_43)

text \<open>
  Claim C2. For every caller and every non-zero tenant id, \<^verbatim>\<open>is_tenant_admin\<close> should be true
  exactly when the store holds an active tenant with that id whose admin identity is the
  caller's. On the default engine it is not: the store of the small installation holds
  the active tenant 7 with admin \<^verbatim>\<open>42\<close>, and \<^verbatim>\<open>is_tenant_admin(42, 7)\<close> is false, because the
  textual filter \<^verbatim>\<open>is_active = 'true'\<close> matches no row of the Boolean column there.
\<close>

theorem tenant_admin_default_engine:
  "SessionLocal ex_manager = Some ex_db
 \<and> dialect ex_db = SQLite
 \<and> ex_tenant1 \<in> set (tenants ex_db)
 \<and> tenant_id ex_tenant1 = 7
 \<and> is_active ex_tenant1
 \<and> admin_user_id ex_tenant1 = py_str 42
 \<and> \<not> is_tenant_admin ex_manager 42 (Some 7)"
  by (simp add: is_tenant_admin_def ex_manager_def ex_db_def ex_tenant1_def py_str_42)

subsection \<open>Access\<close>

text \<open>
  Claim C6. Whenever \<^verbatim>\<open>is_super_admin\<close> answers true for a caller, \<^verbatim>\<open>has_access\<close> is true
  for that caller and any tenant id, given or omitted, whether or not the tenant exists,
  is active or is administered by the caller. When \<^verbatim>\<open>is_super_admin\<close> answers false,
  \<^verbatim>\<open>has_access\<close> is \<^verbatim>\<open>is_tenant_admin\<close> with the same tenant argument.
\<close>

theorem access_dominance:
  "(fst (is_super_admin s u) \<longrightarrow> fst (has_access s u tid))
 \<and> (\<not> fst (is_super_admin s u) \<longrightarrow> fst (has_access s u tid) = is_tenant_admin s u tid)"
proof (cases "is_super_admin s u")
  case (Pair b s')
  have s': "s' = snd (is_super_admin s u)" using Pair by simp
  have ta: "is_tenant_admin s' u t = is_tenant_admin s u t" for t
    unfolding s' by (rule is_super_admin_tenant_admin)
  show ?thesis
  proof (cases b)
    case True
    then show ?thesis using Pair by (simp add: has_access_def)
  next
    case False
    then have "fst (has_access s u tid) = is_tenant_admin s u tid"
      using Pair ta is_tenant_admin_falsy [of tid s u] by (simp add: has_access_def)
    then show ?thesis using Pair False by simp
  qed
qed

theorem access_dominance_witness:
  "fst (is_super_admin ex_manager 42)
 \<and> fst (has_access ex_manager 42 (Some 8))
 \<and> \<not> is_tenant_admin ex_manager 42 (Some 8)"
  using access_dominance [of ex_manager 42 "Some 8"]
  by (simp add: is_super_admin_def is_tenant_admin_def ex_manager_def ex_db_def
      ex_tenant1_def ex_tenant2_def ex_tenant3_def py_str_42)

text \<open>
  Claim C8. A tenant id of \<^verbatim>\<open>0\<close> is the same as no tenant id. \<^verbatim>\<open>is_tenant_admin\<close> with
  \<^verbatim>\<open>0\<close> is the any-tenant check: true exactly when some row has the caller as admin and
  passes the activity filter of the count query (on an engine that reads the literal as a
  boolean: when the caller administers some active tenant); no tenant with id \<^verbatim>\<open>0\<close> is
  looked up. \<^verbatim>\<open>has_access\<close> with \<^verbatim>\<open>0\<close> is true exactly when the caller is the super
  administrator or passes that any-tenant check, and leaves the manager as
  \<^verbatim>\<open>is_super_admin\<close> leaves it.
\<close>

theorem zero_tenant_id_is_none:
  "is_tenant_admin s u (Some 0) = is_tenant_admin s u None
 \<and> is_tenant_admin s u None =
     (\<exists>db. SessionLocal s = Some db
          \<and> (\<exists>t\<in>set (tenants db). admin_user_id t = py_str u
                \<and> is_active_eq_true (dialect db) (is_active t)))
 \<and> (literal_coerced s \<longrightarrow>
       is_tenant_admin s u (Some 0) =
         (\<exists>db t. SessionLocal s = Some db \<and> t \<in> set (tenants db)
                \<and> admin_user_id t = py_str u \<and> is_active t))
 \<and> has_access s u (Some 0) = has_access s u None
 \<and> fst (has_access s u (Some 0)) = (fst (is_super_admin s u) \<or> is_tenant_admin s u None)
 \<and> snd (has_access s u (Some 0)) = snd (is_super_admin s u)"
proof -
  have 1: "is_tenant_admin s u (Some 0) = is_tenant_admin s u None"
    by (rule is_tenant_admin_falsy) simp
  have 2: "is_tenant_admin s u None =
     (\<exists>db. SessionLocal s = Some db
          \<and> (\<exists>t\<in>set (tenants db). admin_user_id t = py_str u
                \<and> is_active_eq_true (dialect db) (is_active t)))"
  proof (cases "SessionLocal s")
    case None
    then show ?thesis by (simp add: is_tenant_admin_def)
  next
    case (Some db)
    then show ?thesis by (simp add: is_tenant_admin_def filter_empty_conv)
  qed
  have 3: "is_tenant_admin s u (Some 0) =
         (\<exists>db t. SessionLocal s = Some db \<and> t \<in> set (tenants db)
                \<and> admin_user_id t = py_str u \<and> is_active t)"
    if c: "literal_coerced s"
  proof (cases "SessionLocal s")
    case None
    then show ?thesis unfolding 1 2 by simp
  next
    case (Some db)
    then have "dialect db = PostgreSQL" using c by (simp add: literal_coerced_def)
    then show ?thesis unfolding 1 2 using Some by auto
  qed
  have 4: "has_access s u (Some 0) = has_access s u None"
    by (cases "is_super_admin s u") (simp add: has_access_def split: bool.splits)
  obtain b s' where p: "is_super_admin s u = (b, s')" by (cases "is_super_admin s u")
  have ta: "is_tenant_admin s' u None = is_tenant_admin s u None"
    using is_super_admin_tenant_admin [of s u u None] p by simp
  have 5: "fst (has_access s u (Some 0)) = (fst (is_super_admin s u) \<or> is_tenant_admin s u None)"
    using p ta by (cases b) (simp_all add: has_access_def)
  have 6: "snd (has_access s u (Some 0)) = snd (is_super_admin s u)"
    using p by (cases b) (simp_all add: has_access_def)
  show ?thesis using 1 2 3 4 5 6 by blast
qed

theorem zero_tenant_id_is_none_witness:
  "literal_coerced pg_manager_admin
 \<and> 0 \<notin> tenant_id ` set (tenants (ex_db\<lparr>dialect := PostgreSQL\<rparr>))
 \<and> is_tenant_admin pg_manager_admin 42 (Some 0)
 \<and> \<not> fst (is_super_admin pg_manager_admin 42)
 \<and> fst (has_access pg_manager_admin 42 (Some 0))
 \<and> \<not> fst (has_access pg_manager_admin 44 (Some 0))"
proof -
  have c: "literal_coerced pg_manager_admin"
    by (simp add: literal_coerced_def pg_manager_admin_def pg_manager_def ex_manager_def)
  have db: "SessionLocal pg_manager_admin = Some (ex_db\<lparr>dialect := PostgreSQL\<rparr>)"
    by (simp add: pg_manager_admin_def pg_manager_def ex_manager_def)
  have ids: "0 \<notin> tenant_id ` set (tenants (ex_db\<lparr>dialect := PostgreSQL\<rparr>))"
    by (simp add: ex_db_def ex_tenant1_def ex_tenant2_def ex_tenant3_def)
  have t1: "ex_tenant1 \<in> set (tenants (ex_db\<lparr>dialect := PostgreSQL\<rparr>))
      \<and> admin_user_id ex_tenant1 = py_str 42 \<and> is_active ex_tenant1"
    by (simp add: ex_db_def ex_tenant1_def py_str_42)
  have none44: "\<not> (\<exists>t\<in>set (tenants (ex_db\<lparr>dialect := PostgreSQL\<rparr>)). admin_user_id t = py_str 44
        \<and> is_active_eq_true (dialect (ex_db\<lparr>dialect := PostgreSQL\<rparr>)) (is_active t))"
    by (simp add: ex_db_def ex_tenant1_def ex_tenant2_def ex_tenant3_def py_str_44)
  have sa: "\<not> fst (is_super_admin pg_manager_admin 42)"
      "\<not> fst (is_super_admin pg_manager_admin 44)"
    by (simp_all add: is_super_admin_def pg_manager_admin_def pg_manager_def ex_manager_def
        py_str_42 py_str_44)
  note th42 = zero_tenant_id_is_none [of pg_manager_admin 42]
  note th44 = zero_tenant_id_is_none [of pg_manager_admin 44]
  have a42: "is_tenant_admin pg_manager_admin 42 (Some 0)"
    using th42 c db t1 by blast
  have n42: "is_tenant_admin pg_manager_admin 42 None" using th42 a42 by blast
  have h42: "fst (has_access pg_manager_admin 42 (Some 0))" using th42 n42 by blast
  have n44: "\<not> is_tenant_admin pg_manager_admin 44 None" using th44 db none44 by auto
  have h44: "\<not> fst (has_access pg_manager_admin 44 (Some 0))" using th44 n44 sa(2) by blast
  show ?thesis using c ids a42 sa(1) h42 h44 by blast
qed

text \<open>
  Claim C9. With no super administrator configured anywhere, \<^verbatim>\<open>get_tenants\<close> with a
  non-zero \<^verbatim>\<open>user_id\<close> adopts that caller as the super administrator, in memory and in
  \<^verbatim>\<open>bot_config\<close> and for every later call, and returns all active tenants, whoever
  administers them.
\<close>

theorem get_tenants_bootstrap:
  assumes "\<not> str_truthy (super_admin_id s)"
    and "SessionLocal s = Some db"
    and "bot_config db ''super_admin_id'' = None"
    and "u \<noteq> 0"
  shows "\<exists>s'. get_tenants s (Some u) = (filter is_active (tenants db), s')
            \<and> super_admin_id s' = Some (py_str u)
            \<and> get_config s' ''super_admin_id'' = Some (py_str u)
            \<and> (\<forall>v. is_super_admin s' v = (v = u, s'))"
proof -
  define s' where "s' = s\<lparr>super_admin_id := Some (py_str u),
               SessionLocal := Some (db\<lparr>bot_config := (bot_config db)(''super_admin_id'' \<mapsto> Some (py_str u))\<rparr>)\<rparr>"
  have 1: "is_super_admin s u = (True, s')"
    unfolding s'_def using assms(1-3) by (rule is_super_admin_first)
  have sel: "select_tenants s' is_active = filter is_active (tenants db)"
    by (simp add: s'_def select_tenants_def)
  have 2: "get_tenants s (Some u) = (filter is_active (tenants db), s')"
    using assms(2,4) 1 sel by (simp add: get_tenants_def)
  have 3: "get_config s' ''super_admin_id'' = Some (py_str u)"
    by (simp add: get_config_def s'_def)
  have 5: "super_admin_id s' = Some (py_str u)" by (simp add: s'_def)
  have 4: "is_super_admin s' v = (v = u, s')" for v
    using 5 by (rule is_super_admin_settled)
  show ?thesis using 2 3 4 5 by blast
qed

theorem get_tenants_bootstrap_witness:
  "\<not> str_truthy (super_admin_id ex_manager)
 \<and> bot_config ex_db ''super_admin_id'' = None
 \<and> fst (get_tenants ex_manager (Some 43)) = [ex_tenant1, ex_tenant2]
 \<and> admin_user_id ex_tenant1 \<noteq> py_str 43"
  using get_tenants_bootstrap [of ex_manager ex_db 43]
  by (auto simp: ex_manager_def ex_db_def ex_tenant1_def ex_tenant2_def ex_tenant3_def py_str_43)


section \<open>The cache refresh\<close>

subsection \<open>Auxiliary facts\<close>

lemma hasattr_getattr:
  assumes "py_hasattr z a" and "a \<noteq> ''__iter__''"
  shows "\<exists>v. py_getattr z a = Inr v"
  using assms by (cases z) auto

lemma py_iter_ok:
  assumes "py_hasattr x ''__iter__''"
  shows "\<exists>l. py_iter x = Inr l"
proof (cases x)
  case (PyInst attrs it)
  then show ?thesis using assms by (cases it) simp_all
qed (use assms in simp_all)

lemma as_list_total: "\<exists>l. as_list x = Inr l"
proof (cases "truthy_attr x ''result''")
  case None
  then show ?thesis using py_iter_ok [of x] by (simp add: as_list_def)
next
  case (Some r)
  then show ?thesis using py_iter_ok [of r] by (simp add: as_list_def)
qed

lemma as_list_empty: "as_list (PyList []) = Inr []"
  by (simp add: as_list_def truthy_attr_def)

lemma fetch_tunnels_failure:
  assumes "py_truthy acc" and "tunnels_list g tok acc = Inl e"
  shows "fetch_tunnels g tok acc = ([TunnelsList tok acc], PyList [])"
  using assms by (simp add: fetch_tunnels_def)

lemma index_zones_ok:
  assumes "zone_keys_hashable zl"
  shows "\<exists>zd' dd'. index_zones zl zd dd = Inr (zd', dd')"
  using assms
proof (induction zl arbitrary: zd dd)
  case Nil
  then show ?case by simp
next
  case (Cons z zl)
  have rest: "zone_keys_hashable zl"
    using Cons.prems by (simp add: zone_keys_hashable_def)
  show ?case
  proof (cases "py_hasattr z ''id'' \<and> py_hasattr z ''name''")
    case False
    then show ?thesis using Cons.IH [OF rest] by auto
  next
    case True
    obtain i where i: "py_getattr z ''id'' = Inr i"
      using hasattr_getattr [of z "''id''"] True by auto
    obtain n where n: "py_getattr z ''name'' = Inr n"
      using hasattr_getattr [of z "''name''"] True by auto
    have "py_hashable i" "py_hashable n"
      using Cons.prems True i n by (simp_all add: zone_keys_hashable_def the_attr_def)
    then show ?thesis
      using True i n Cons.IH [OF rest, of "AList.update i z zd" "AList.update n z dd"]
      by (simp add: dict_set_def)
  qed
qed

lemma refresh_resolved:
  assumes "get_tenant_by_id s tid = Inr (Some t)"
  shows "refresh_tenant_domains g s tid =
           (case refresh_body g t of
              (calls, Inl e) \<Rightarrow> (Inl e, s, calls)
            | (calls, Inr entry) \<Rightarrow>
                (Inr (), s\<lparr>tenants_cache := (tenants_cache s)(tid \<mapsto> entry)\<rparr>, calls))"
  using assms by (simp add: refresh_tenant_domains_def)

lemma refresh_raise_keeps_manager:
  assumes "fst (refresh_tenant_domains g s tid) = Inl e"
  shows "fst (snd (refresh_tenant_domains g s tid)) = s"
  using assms
  by (auto simp: refresh_tenant_domains_def split: sum.splits option.splits prod.splits)

lemma update_map_key:
  "AList.update (f z) z (map (\<lambda>v. (f v, v)) vs) = map (\<lambda>v. (f v, v)) (replace_by f z vs)"
  by (induction vs) simp_all

lemma replace_by_cong:
  assumes "\<forall>v\<in>set vs. (f v = f z) = (g v = g z)"
  shows "replace_by f z vs = replace_by g z vs"
  using assms by (induction vs) simp_all

lemma set_replace_by: "set (replace_by f z vs) \<subseteq> insert z (set vs)"
  by (induction vs) auto

lemma image_replace_by: "f ` set (replace_by f z vs) = insert (f z) (f ` set vs)"
  by (induction vs) auto

lemma set_update_subset: "set (AList.update k v al) \<subseteq> insert (k, v) (set al)"
  by (induction al) auto

lemma index_zones_skip:
  assumes "\<not> (py_hasattr z ''id'' \<and> py_hasattr z ''name'')"
  shows "index_zones (z # zl) zd dd = index_zones zl zd dd"
  using assms by auto

lemma index_zones_keyed:
  assumes "py_hasattr z ''id''" and "py_hasattr z ''name''"
    and "index_zones (z # zl) zd dd = Inr r"
  shows "index_zones zl (AList.update (the_attr ''id'' z) z zd)
           (AList.update (the_attr ''name'' z) z dd) = Inr r"
proof -
  obtain i where i: "py_getattr z ''id'' = Inr i"
    using hasattr_getattr [OF assms(1)] by auto
  obtain n where n: "py_getattr z ''name'' = Inr n"
    using hasattr_getattr [OF assms(2)] by auto
  have "the_attr ''id'' z = i" "the_attr ''name'' z = n"
    using i n by (simp_all add: the_attr_def)
  then show ?thesis
    using assms i n by (simp add: dict_set_def split: if_splits)
qed

text \<open>What the zone loop leaves in the two dicts, whatever the listing.\<close>

lemma index_zones_stored:
  assumes "index_zones zl (map (\<lambda>v. (the_attr ''id'' v, v)) us)
             (map (\<lambda>v. (the_attr ''name'' v, v)) ws) = Inr (zd', dd')"
  shows "\<exists>us' ws'. zd' = map (\<lambda>v. (the_attr ''id'' v, v)) us'
           \<and> dd' = map (\<lambda>v. (the_attr ''name'' v, v)) ws'
           \<and> set us' \<subseteq> set us \<union> {z \<in> set zl. py_hasattr z ''id'' \<and> py_hasattr z ''name''}
           \<and> set ws' \<subseteq> set ws \<union> {z \<in> set zl. py_hasattr z ''id'' \<and> py_hasattr z ''name''}
           \<and> the_attr ''id'' ` set us' = the_attr ''id'' ` set us
                \<union> the_attr ''id'' ` {z \<in> set zl. py_hasattr z ''id'' \<and> py_hasattr z ''name''}
           \<and> the_attr ''name'' ` set ws' = the_attr ''name'' ` set ws
                \<union> the_attr ''name'' ` {z \<in> set zl. py_hasattr z ''id'' \<and> py_hasattr z ''name''}"
  using assms
proof (induction zl arbitrary: us ws)
  case Nil
  then have e: "zd' = map (\<lambda>v. (the_attr ''id'' v, v)) us"
      "dd' = map (\<lambda>v. (the_attr ''name'' v, v)) ws"
    by simp_all
  show ?case
  proof (intro exI conjI)
    show "zd' = map (\<lambda>v. (the_attr ''id'' v, v)) us" by (rule e(1))
    show "dd' = map (\<lambda>v. (the_attr ''name'' v, v)) ws" by (rule e(2))
  qed simp_all
next
  case (Cons z zl)
  let ?Q = "{x \<in> set zl. py_hasattr x ''id'' \<and> py_hasattr x ''name''}"
  let ?Q' = "{x \<in> set (z # zl). py_hasattr x ''id'' \<and> py_hasattr x ''name''}"
  show ?case
  proof (cases "py_hasattr z ''id'' \<and> py_hasattr z ''name''")
    case False
    have "index_zones zl (map (\<lambda>v. (the_attr ''id'' v, v)) us)
             (map (\<lambda>v. (the_attr ''name'' v, v)) ws) = Inr (zd', dd')"
      using Cons.prems index_zones_skip [OF False] by simp
    from Cons.IH [OF this] obtain us' ws' where r:
      "zd' = map (\<lambda>v. (the_attr ''id'' v, v)) us'"
      "dd' = map (\<lambda>v. (the_attr ''name'' v, v)) ws'"
      "set us' \<subseteq> set us \<union> ?Q"
      "set ws' \<subseteq> set ws \<union> ?Q"
      "the_attr ''id'' ` set us' = the_attr ''id'' ` set us \<union> the_attr ''id'' ` ?Q"
      "the_attr ''name'' ` set ws' = the_attr ''name'' ` set ws \<union> the_attr ''name'' ` ?Q"
      by (elim exE conjE) (rule that, assumption+)
    have q: "?Q' = ?Q" using False by auto
    show ?thesis
    proof (intro exI conjI)
      show "zd' = map (\<lambda>v. (the_attr ''id'' v, v)) us'" by (rule r(1))
      show "dd' = map (\<lambda>v. (the_attr ''name'' v, v)) ws'" by (rule r(2))
      show "set us' \<subseteq> set us \<union> ?Q'" unfolding q by (rule r(3))
      show "set ws' \<subseteq> set ws \<union> ?Q'" unfolding q by (rule r(4))
      show "the_attr ''id'' ` set us' = the_attr ''id'' ` set us \<union> the_attr ''id'' ` ?Q'"
        unfolding q by (rule r(5))
      show "the_attr ''name'' ` set ws' = the_attr ''name'' ` set ws \<union> the_attr ''name'' ` ?Q'"
        unfolding q by (rule r(6))
    qed
  next
    case True
    have "index_zones zl (AList.update (the_attr ''id'' z) z (map (\<lambda>v. (the_attr ''id'' v, v)) us))
           (AList.update (the_attr ''name'' z) z (map (\<lambda>v. (the_attr ''name'' v, v)) ws))
          = Inr (zd', dd')"
      using index_zones_keyed [OF _ _ Cons.prems] True by simp
    then have "index_zones zl (map (\<lambda>v. (the_attr ''id'' v, v)) (replace_by (the_attr ''id'') z us))
           (map (\<lambda>v. (the_attr ''name'' v, v)) (replace_by (the_attr ''name'') z ws))
          = Inr (zd', dd')"
      by (simp only: update_map_key)
    from Cons.IH [OF this] obtain us' ws' where r:
      "zd' = map (\<lambda>v. (the_attr ''id'' v, v)) us'"
      "dd' = map (\<lambda>v. (the_attr ''name'' v, v)) ws'"
      "set us' \<subseteq> set (replace_by (the_attr ''id'') z us) \<union> ?Q"
      "set ws' \<subseteq> set (replace_by (the_attr ''name'') z ws) \<union> ?Q"
      "the_attr ''id'' ` set us' = the_attr ''id'' ` set (replace_by (the_attr ''id'') z us)
          \<union> the_attr ''id'' ` ?Q"
      "the_attr ''name'' ` set ws' = the_attr ''name'' ` set (replace_by (the_attr ''name'') z ws)
          \<union> the_attr ''name'' ` ?Q"
      by (elim exE conjE) (rule that, assumption+)
    have q: "?Q' = insert z ?Q" using True by auto
    show ?thesis
    proof (intro exI conjI)
      show "zd' = map (\<lambda>v. (the_attr ''id'' v, v)) us'" by (rule r(1))
      show "dd' = map (\<lambda>v. (the_attr ''name'' v, v)) ws'" by (rule r(2))
      show "set us' \<subseteq> set us \<union> ?Q'"
        unfolding q using r(3) set_replace_by [of "the_attr ''id''" z us] by blast
      show "set ws' \<subseteq> set ws \<union> ?Q'"
        unfolding q using r(4) set_replace_by [of "the_attr ''name''" z ws] by blast
      show "the_attr ''id'' ` set us' = the_attr ''id'' ` set us \<union> the_attr ''id'' ` ?Q'"
        unfolding q r(5) image_replace_by by simp
      show "the_attr ''name'' ` set ws' = the_attr ''name'' ` set ws \<union> the_attr ''name'' ` ?Q'"
        unfolding q r(6) image_replace_by by simp
    qed
  qed
qed

text \<open>With ids and names in one-to-one correspondence the two dicts hold the same zones.\<close>

lemma index_zones_paired:
  assumes "index_zones zl (map (\<lambda>v. (the_attr ''id'' v, v)) vs)
             (map (\<lambda>v. (the_attr ''name'' v, v)) vs) = Inr (zd', dd')"
    and "\<forall>x\<in>set vs \<union> {z \<in> set zl. py_hasattr z ''id'' \<and> py_hasattr z ''name''}.
         \<forall>y\<in>set vs \<union> {z \<in> set zl. py_hasattr z ''id'' \<and> py_hasattr z ''name''}.
           (the_attr ''id'' x = the_attr ''id'' y) = (the_attr ''name'' x = the_attr ''name'' y)"
  shows "\<exists>vs'. zd' = map (\<lambda>v. (the_attr ''id'' v, v)) vs'
              \<and> dd' = map (\<lambda>v. (the_attr ''name'' v, v)) vs'"
  using assms
proof (induction zl arbitrary: vs)
  case Nil
  then have "zd' = map (\<lambda>v. (the_attr ''id'' v, v)) vs \<and> dd' = map (\<lambda>v. (the_attr ''name'' v, v)) vs"
    by simp
  then show ?case by (rule exI)
next
  case (Cons z zl)
  show ?case
  proof (cases "py_hasattr z ''id'' \<and> py_hasattr z ''name''")
    case False
    have 1: "index_zones zl (map (\<lambda>v. (the_attr ''id'' v, v)) vs)
             (map (\<lambda>v. (the_attr ''name'' v, v)) vs) = Inr (zd', dd')"
      using Cons.prems(1) index_zones_skip [OF False] by simp
    have "{x \<in> set (z # zl). py_hasattr x ''id'' \<and> py_hasattr x ''name''}
        = {x \<in> set zl. py_hasattr x ''id'' \<and> py_hasattr x ''name''}"
      using False by auto
    then have 2: "\<forall>x\<in>set vs \<union> {z \<in> set zl. py_hasattr z ''id'' \<and> py_hasattr z ''name''}.
         \<forall>y\<in>set vs \<union> {z \<in> set zl. py_hasattr z ''id'' \<and> py_hasattr z ''name''}.
           (the_attr ''id'' x = the_attr ''id'' y) = (the_attr ''name'' x = the_attr ''name'' y)"
      using Cons.prems(2) by simp
    show ?thesis using Cons.IH [OF 1 2] .
  next
    case True
    let ?Q = "{x \<in> set zl. py_hasattr x ''id'' \<and> py_hasattr x ''name''}"
    have q: "{x \<in> set (z # zl). py_hasattr x ''id'' \<and> py_hasattr x ''name''} = insert z ?Q"
      using True by auto
    have m: "\<forall>x\<in>insert z (set vs \<union> ?Q). \<forall>y\<in>insert z (set vs \<union> ?Q).
           (the_attr ''id'' x = the_attr ''id'' y) = (the_attr ''name'' x = the_attr ''name'' y)"
      using Cons.prems(2) unfolding q by simp
    have same: "replace_by (the_attr ''id'') z vs = replace_by (the_attr ''name'') z vs"
      by (rule replace_by_cong) (use m in blast)
    have "index_zones zl (AList.update (the_attr ''id'' z) z (map (\<lambda>v. (the_attr ''id'' v, v)) vs))
           (AList.update (the_attr ''name'' z) z (map (\<lambda>v. (the_attr ''name'' v, v)) vs))
          = Inr (zd', dd')"
      using index_zones_keyed [OF _ _ Cons.prems(1)] True by simp
    then have 1: "index_zones zl
           (map (\<lambda>v. (the_attr ''id'' v, v)) (replace_by (the_attr ''id'') z vs))
           (map (\<lambda>v. (the_attr ''name'' v, v)) (replace_by (the_attr ''id'') z vs))
          = Inr (zd', dd')"
      by (simp only: update_map_key same)
    have sub: "set (replace_by (the_attr ''id'') z vs) \<union> ?Q \<subseteq> insert z (set vs \<union> ?Q)"
      using set_replace_by [of "the_attr ''id''" z vs] by blast
    have 2: "\<forall>x\<in>set (replace_by (the_attr ''id'') z vs) \<union> ?Q.
             \<forall>y\<in>set (replace_by (the_attr ''id'') z vs) \<union> ?Q.
           (the_attr ''id'' x = the_attr ''id'' y) = (the_attr ''name'' x = the_attr ''name'' y)"
      using m sub by blast
    show ?thesis using Cons.IH [OF 1 2] .
  qed
qed

lemma index_zones_distinct:
  assumes "index_zones zl zd dd = Inr (zd', dd')"
    and "distinct (map fst zd)" and "distinct (map fst dd)"
  shows "distinct (map fst zd') \<and> distinct (map fst dd')"
  using assms
proof (induction zl arbitrary: zd dd)
  case Nil
  then show ?case by simp
next
  case (Cons z zl)
  show ?case
  proof (cases "py_hasattr z ''id'' \<and> py_hasattr z ''name''")
    case False
    then show ?thesis using Cons.IH [of zd dd] Cons.prems index_zones_skip [OF False] by simp
  next
    case True
    have "index_zones zl (AList.update (the_attr ''id'' z) z zd)
           (AList.update (the_attr ''name'' z) z dd) = Inr (zd', dd')"
      using index_zones_keyed [OF _ _ Cons.prems(1)] True by simp
    then show ?thesis
      using Cons.IH Cons.prems(2,3) by (simp add: distinct_update)
  qed
qed

lemma index_tunnels_stored:
  assumes "index_tunnels tls td = Inr td'"
  shows "\<forall>(k, t)\<in>set td'. (k, t) \<in> set td \<or> py_hasattr t ''id''"
  using assms
proof (induction tls arbitrary: td)
  case Nil
  then show ?case by auto
next
  case (Cons t tls)
  show ?case
  proof (cases "py_hasattr t ''id''")
    case False
    then show ?thesis using Cons by simp
  next
    case True
    obtain i where i: "py_getattr t ''id'' = Inr i"
      using hasattr_getattr [OF True] by auto
    have "index_tunnels tls (AList.update i t td) = Inr td'"
      using Cons.prems True i by (simp add: dict_set_def split: if_splits)
    from Cons.IH [OF this] have
      "\<forall>(k, x)\<in>set td'. (k, x) \<in> set (AList.update i t td) \<or> py_hasattr x ''id''" .
    then show ?thesis using set_update_subset [of i t td] True by fastforce
  qed
qed

lemma getattr_the_attr:
  assumes "py_hasattr z a" and "a \<noteq> ''__iter__''"
  shows "py_getattr z a = Inr (the_attr a z)"
proof -
  obtain v where "py_getattr z a = Inr v" using hasattr_getattr [OF assms] by blast
  then show ?thesis by (simp add: the_attr_def)
qed

lemma index_zones_values:
  assumes "index_zones zl [] [] = Inr (zd, dd)"
  shows "\<forall>k z. (k, z) \<in> set zd \<longrightarrow>
           z \<in> set zl \<and> py_hasattr z ''id'' \<and> py_hasattr z ''name'' \<and> py_getattr z ''id'' = Inr k"
    and "\<forall>n z. (n, z) \<in> set dd \<longrightarrow>
           z \<in> set zl \<and> py_hasattr z ''id'' \<and> py_hasattr z ''name'' \<and> py_getattr z ''name'' = Inr n"
    and "\<forall>z\<in>set zl. py_hasattr z ''id'' \<and> py_hasattr z ''name'' \<longrightarrow>
           the_attr ''id'' z \<in> fst ` set zd \<and> the_attr ''name'' z \<in> fst ` set dd"
proof -
  let ?Q = "{z \<in> set zl. py_hasattr z ''id'' \<and> py_hasattr z ''name''}"
  have "index_zones zl (map (\<lambda>v. (the_attr ''id'' v, v)) [])
          (map (\<lambda>v. (the_attr ''name'' v, v)) []) = Inr (zd, dd)"
    using assms by simp
  from index_zones_stored [OF this] obtain us ws where r:
      "zd = map (\<lambda>v. (the_attr ''id'' v, v)) us"
      "dd = map (\<lambda>v. (the_attr ''name'' v, v)) ws"
      "set us \<subseteq> set [] \<union> ?Q"
      "set ws \<subseteq> set [] \<union> ?Q"
      "the_attr ''id'' ` set us = the_attr ''id'' ` set [] \<union> the_attr ''id'' ` ?Q"
      "the_attr ''name'' ` set ws = the_attr ''name'' ` set [] \<union> the_attr ''name'' ` ?Q"
    by (elim exE conjE) (rule that, assumption+)
  show "\<forall>k z. (k, z) \<in> set zd \<longrightarrow>
           z \<in> set zl \<and> py_hasattr z ''id'' \<and> py_hasattr z ''name'' \<and> py_getattr z ''id'' = Inr k"
  proof (intro allI impI)
    fix k z assume "(k, z) \<in> set zd"
    then have "z \<in> set us" "k = the_attr ''id'' z" unfolding r(1) by auto
    moreover from this r(3) have "z \<in> ?Q" by auto
    ultimately show "z \<in> set zl \<and> py_hasattr z ''id'' \<and> py_hasattr z ''name''
        \<and> py_getattr z ''id'' = Inr k"
      using getattr_the_attr [of z "''id''"] by simp
  qed
  show "\<forall>n z. (n, z) \<in> set dd \<longrightarrow>
           z \<in> set zl \<and> py_hasattr z ''id'' \<and> py_hasattr z ''name'' \<and> py_getattr z ''name'' = Inr n"
  proof (intro allI impI)
    fix n z assume "(n, z) \<in> set dd"
    then have "z \<in> set ws" "n = the_attr ''name'' z" unfolding r(2) by auto
    moreover from this r(4) have "z \<in> ?Q" by auto
    ultimately show "z \<in> set zl \<and> py_hasattr z ''id'' \<and> py_hasattr z ''name''
        \<and> py_getattr z ''name'' = Inr n"
      using getattr_the_attr [of z "''name''"] by simp
  qed
  have k1: "fst ` set zd = the_attr ''id'' ` ?Q"
    unfolding r(1) using r(5) by (simp add: image_image)
  have k2: "fst ` set dd = the_attr ''name'' ` ?Q"
    unfolding r(2) using r(6) by (simp add: image_image)
  show "\<forall>z\<in>set zl. py_hasattr z ''id'' \<and> py_hasattr z ''name'' \<longrightarrow>
           the_attr ''id'' z \<in> fst ` set zd \<and> the_attr ''name'' z \<in> fst ` set dd"
    unfolding k1 k2 by blast
qed

lemma index_zones_matched:
  assumes "index_zones zl [] [] = Inr (zd, dd)" and "ids_match_names zl"
  shows "map snd zd = map snd dd"
proof -
  let ?Q = "{z \<in> set zl. py_hasattr z ''id'' \<and> py_hasattr z ''name''}"
  have m: "(the_attr ''id'' x = the_attr ''id'' y) = (the_attr ''name'' x = the_attr ''name'' y)"
    if x: "x \<in> ?Q" and y: "y \<in> ?Q" for x y
  proof -
    have gx: "py_getattr x ''id'' = Inr (the_attr ''id'' x)"
        "py_getattr x ''name'' = Inr (the_attr ''name'' x)"
      using x getattr_the_attr [of x "''id''"] getattr_the_attr [of x "''name''"] by simp_all
    have gy: "py_getattr y ''id'' = Inr (the_attr ''id'' y)"
        "py_getattr y ''name'' = Inr (the_attr ''name'' y)"
      using y getattr_the_attr [of y "''id''"] getattr_the_attr [of y "''name''"] by simp_all
    have "(py_getattr x ''id'' = py_getattr y ''id'')
        = (py_getattr x ''name'' = py_getattr y ''name'')"
      using assms(2) x y unfolding ids_match_names_def by blast
    then show ?thesis unfolding gx gy by simp
  qed
  have 1: "index_zones zl (map (\<lambda>v. (the_attr ''id'' v, v)) [])
          (map (\<lambda>v. (the_attr ''name'' v, v)) []) = Inr (zd, dd)"
    using assms(1) by simp
  have 2: "\<forall>x\<in>set [] \<union> ?Q. \<forall>y\<in>set [] \<union> ?Q.
      (the_attr ''id'' x = the_attr ''id'' y) = (the_attr ''name'' x = the_attr ''name'' y)"
    using m by simp
  from index_zones_paired [OF 1 2] obtain vs where
    "zd = map (\<lambda>v. (the_attr ''id'' v, v)) vs" "dd = map (\<lambda>v. (the_attr ''name'' v, v)) vs"
    by (elim exE conjE) (rule that, assumption+)
  then show ?thesis by (simp add: comp_def)
qed

lemma build_entry_parts:
  assumes "build_entry t zs ts acc = Inr entry"
  shows "\<exists>zl tls. as_list zs = Inr zl \<and> as_list ts = Inr tls
           \<and> index_zones zl [] [] = Inr (zones entry, domains entry)
           \<and> index_tunnels tls [] = Inr (tunnels entry)
           \<and> tenant entry = t \<and> account_id entry = acc"
proof -
  obtain zl where zl: "as_list zs = Inr zl" using as_list_total by blast
  obtain tls where tls: "as_list ts = Inr tls" using as_list_total by blast
  obtain zd dd where ix: "index_zones zl [] [] = Inr (zd, dd)"
    using assms zl tls by (cases "index_zones zl [] []") (auto simp: build_entry_def)
  obtain td where td: "index_tunnels tls [] = Inr td"
    using assms zl tls ix by (cases "index_tunnels tls []") (auto simp: build_entry_def)
  have "entry = \<lparr>tenant = t, domains = dd, zones = zd, tunnels = td, account_id = acc\<rparr>"
    using assms zl tls ix td by (simp add: build_entry_def)
  then show ?thesis using zl tls ix td by simp
qed

lemma refresh_body_parts:
  assumes "refresh_body g t = (calls, Inr entry)"
  shows "\<exists>zs ts acc. zones_list g (cloudflare_token t) = Inr zs
           \<and> build_entry t zs ts acc = Inr entry"
proof -
  obtain zs where zs: "zones_list g (cloudflare_token t) = Inr zs"
    using assms by (cases "zones_list g (cloudflare_token t)") (auto simp: refresh_body_def Let_def)
  obtain acc0 where a0: "account_id_of_zones zs = Inr acc0"
    using assms zs by (cases "account_id_of_zones zs") (auto simp: refresh_body_def Let_def)
  obtain c1 acc where fa: "fetch_account_id g (cloudflare_token t) acc0 = (c1, acc)"
    by (cases "fetch_account_id g (cloudflare_token t) acc0") auto
  obtain c2 ts where ft: "fetch_tunnels g (cloudflare_token t) acc = (c2, ts)"
    by (cases "fetch_tunnels g (cloudflare_token t) acc") auto
  have "build_entry t zs ts acc = Inr entry"
    using assms zs a0 fa ft by (simp add: refresh_body_def Let_def)
  then show ?thesis using zs by blast
qed

lemma refresh_committed:
  assumes "get_tenant_by_id s tid = Inr (Some t)"
    and "refresh_tenant_domains g s tid = (Inr (), s', calls)"
  shows "\<exists>entry. refresh_body g t = (calls, Inr entry)
           \<and> s' = s\<lparr>tenants_cache := (tenants_cache s)(tid \<mapsto> entry)\<rparr>"
proof (cases "refresh_body g t")
  case (Pair c r)
  show ?thesis
  proof (cases r)
    case (Inl e)
    then show ?thesis using assms(2) Pair refresh_resolved [OF assms(1), of g] by simp
  next
    case (Inr entry)
    then show ?thesis using assms(2) Pair refresh_resolved [OF assms(1), of g] by simp
  qed
qed

subsection \<open>The small installation, evaluated\<close>

lemmas ex_defs = ex_manager_def ex_db_def ex_tenant1_def ex_tenant2_def ex_tenant3_def
lemmas body_defs = refresh_body_def Let_def account_id_of_zones_def truthy_attr_def
  zone_account_id_def fetch_account_id_def fetch_tunnels_def build_entry_def as_list_def
  dict_set_def first_account_id_def

lemma ex_lookup7: "get_tenant_by_id ex_manager 7 = Inr (Some ex_tenant1)"
  by (simp add: get_tenant_by_id_def ex_defs)

lemma ex_lookup9: "get_tenant_by_id ex_manager 9 = Inr (Some ex_tenant3)"
  by (simp add: get_tenant_by_id_def ex_defs)

lemma ex_tokens: "cloudflare_token ex_tenant1 = ''tok_abc''" "cloudflare_token ex_tenant3 = ''tok_ghi''"
  by (simp_all add: ex_defs)

lemma ex_body:
  "refresh_body ex_gateway ex_tenant1 =
     ([ZonesList ''tok_abc'', TunnelsList ''tok_abc'' (PyStr ''acc1'')],
      Inr \<lparr>tenant = ex_tenant1, domains = [(PyStr ''acme.com'', ex_zone)],
           zones = [(PyStr ''z1ize'', ex_zone)], tunnels = [(PyStr ''t1'', ex_tunnel)],
           account_id = PyStr ''acc1''\<rparr>)"
  by (simp add: body_defs ex_gateway_def ex_page_def ex_zone_def ex_tunnel_def ex_tokens)

lemma ex_body9:
  "refresh_body ex_gateway ex_tenant3 =
     ([ZonesList ''tok_ghi'', TunnelsList ''tok_ghi'' (PyStr ''acc1'')],
      Inr \<lparr>tenant = ex_tenant3, domains = [(PyStr ''acme.com'', ex_zone)],
           zones = [(PyStr ''z1ize'', ex_zone)], tunnels = [(PyStr ''t1'', ex_tunnel)],
           account_id = PyStr ''acc1''\<rparr>)"
  by (simp add: body_defs ex_gateway_def ex_page_def ex_zone_def ex_tunnel_def ex_tokens)

lemma same_name_body:
  "refresh_body same_name_gateway ex_tenant1 =
     ([ZonesList ''tok_abc'', AccountsList ''tok_abc''],
      Inr \<lparr>tenant = ex_tenant1, domains = [(PyStr ''x.com'', zone_b)],
           zones = [(PyStr ''a'', zone_a), (PyStr ''b'', zone_b)], tunnels = [],
           account_id = PyNone\<rparr>)"
  by (simp add: body_defs same_name_gateway_def ex_gateway_def zone_a_def zone_b_def ex_tokens)

lemma same_id_body:
  "refresh_body same_id_gateway ex_tenant1 =
     ([ZonesList ''tok_abc'', AccountsList ''tok_abc''],
      Inr \<lparr>tenant = ex_tenant1, domains = [(PyStr ''x.com'', zone_a), (PyStr ''y.com'', zone_a')],
           zones = [(PyStr ''a'', zone_a')], tunnels = [],
           account_id = PyNone\<rparr>)"
  by (simp add: body_defs same_id_gateway_def ex_gateway_def zone_a_def zone_a'_def ex_tokens)

lemma ex_refresh:
  "refresh_tenant_domains ex_gateway ex_manager 7 =
     (Inr (),
      ex_manager\<lparr>tenants_cache := (tenants_cache ex_manager)(7 \<mapsto>
        \<lparr>tenant = ex_tenant1, domains = [(PyStr ''acme.com'', ex_zone)],
         zones = [(PyStr ''z1ize'', ex_zone)], tunnels = [(PyStr ''t1'', ex_tunnel)],
         account_id = PyStr ''acc1''\<rparr>)\<rparr>,
      [ZonesList ''tok_abc'', TunnelsList ''tok_abc'' (PyStr ''acc1'')])"
  using refresh_resolved [OF ex_lookup7, of ex_gateway] by (simp add: ex_body)

subsection \<open>Failures\<close>

text \<open>
  Claim C3. For a tenant that resolves in the store, if the zone listing raises, the refresh
  raises the same exception to its caller and leaves the manager as it was: the cache
  mapping is the one from before the call, for this tenant and for every other. The only
  gateway call made is the zone listing.
\<close>

theorem zone_listing_failure:
  assumes "get_tenant_by_id s tid = Inr (Some t)"
    and "zones_list g (cloudflare_token t) = Inl e"
  shows "refresh_tenant_domains g s tid = (Inl e, s, [ZonesList (cloudflare_token t)])"
proof -
  have "refresh_body g t = ([ZonesList (cloudflare_token t)], Inl e)"
    using assms(2) by (simp add: refresh_body_def Let_def)
  then show ?thesis using refresh_resolved [OF assms(1), of g] by simp
qed

theorem zone_listing_failure_witness:
  "refresh_tenant_domains zones_down_gateway ex_manager 7 =
     (Inl (APIError ''Invalid API token''), ex_manager, [ZonesList ''tok_abc''])"
  using zone_listing_failure [OF ex_lookup7, of zones_down_gateway "APIError ''Invalid API token''"]
  by (simp add: zones_down_gateway_def ex_tokens)

text \<open>
  Claim C4. For a tenant that resolves in the store, if the zone listing succeeds, an account
  id is resolved (from the first zone or by the fallback) and the tunnel listing raises,
  then the refresh returns without raising, commits an entry for the tenant, and the
  entry's tunnels mapping is empty; the exception of the tunnel listing goes no further.
  The ids and names of the listed zones are taken to be hashable, as the strings of the
  provider are; the index loop needs them as dict keys.
\<close>

theorem tunnel_failure_degrades:
  assumes "get_tenant_by_id s tid = Inr (Some t)"
    and "zones_list g (cloudflare_token t) = Inr zs"
    and "account_id_of_zones zs = Inr acc0"
    and "fetch_account_id g (cloudflare_token t) acc0 = (calls, acc)"
    and "py_truthy acc"
    and "tunnels_list g (cloudflare_token t) acc = Inl e"
    and "as_list zs = Inr zl"
    and "zone_keys_hashable zl"
  shows "\<exists>entry. refresh_tenant_domains g s tid =
            (Inr (), s\<lparr>tenants_cache := (tenants_cache s)(tid \<mapsto> entry)\<rparr>,
             ZonesList (cloudflare_token t) # calls @ [TunnelsList (cloudflare_token t) acc])
          \<and> tunnels entry = [] \<and> account_id entry = acc"
proof -
  let ?tok = "cloudflare_token t"
  obtain zd dd where ix: "index_zones zl [] [] = Inr (zd, dd)"
    using index_zones_ok [OF assms(8)] by blast
  let ?entry = "\<lparr>tenant = t, domains = dd, zones = zd, tunnels = [], account_id = acc\<rparr>"
  have build: "build_entry t zs (PyList []) acc = Inr ?entry"
    using assms(7) ix by (simp add: build_entry_def as_list_empty)
  have ft: "fetch_tunnels g ?tok acc = ([TunnelsList ?tok acc], PyList [])"
    using assms(5,6) by (rule fetch_tunnels_failure)
  have body: "refresh_body g t = (ZonesList ?tok # calls @ [TunnelsList ?tok acc], Inr ?entry)"
    using assms(2,3,4) ft build by (simp add: refresh_body_def Let_def)
  have "refresh_tenant_domains g s tid =
          (Inr (), s\<lparr>tenants_cache := (tenants_cache s)(tid \<mapsto> ?entry)\<rparr>,
           ZonesList ?tok # calls @ [TunnelsList ?tok acc])"
    using refresh_resolved [OF assms(1), of g] body by simp
  then show ?thesis by (intro exI [of _ ?entry]) simp
qed

theorem tunnel_failure_degrades_witness:
  "\<exists>entry. refresh_tenant_domains tunnels_down_gateway ex_manager 7 =
      (Inr (), ex_manager\<lparr>tenants_cache := (tenants_cache ex_manager)(7 \<mapsto> entry)\<rparr>,
       [ZonesList ''tok_abc'', TunnelsList ''tok_abc'' (PyStr ''acc1'')])
    \<and> tunnels entry = [] \<and> account_id entry = PyStr ''acc1''"
proof -
  have 1: "zones_list tunnels_down_gateway (cloudflare_token ex_tenant1) = Inr (ex_page [ex_zone])"
    by (simp add: tunnels_down_gateway_def ex_gateway_def)
  have 2: "account_id_of_zones (ex_page [ex_zone]) = Inr (PyStr ''acc1'')"
    by (simp add: account_id_of_zones_def truthy_attr_def zone_account_id_def ex_page_def ex_zone_def)
  have 3: "fetch_account_id tunnels_down_gateway (cloudflare_token ex_tenant1) (PyStr ''acc1'')
             = ([], PyStr ''acc1'')"
    by (simp add: fetch_account_id_def)
  have 4: "py_truthy (PyStr ''acc1'')" by simp
  have 5: "tunnels_list tunnels_down_gateway (cloudflare_token ex_tenant1) (PyStr ''acc1'')
             = Inl (APIError ''tunnels are not enabled'')"
    by (simp add: tunnels_down_gateway_def)
  have 6: "as_list (ex_page [ex_zone]) = Inr [ex_zone]"
    by (simp add: as_list_def truthy_attr_def ex_page_def)
  have 7: "zone_keys_hashable [ex_zone]"
    by (simp add: zone_keys_hashable_def the_attr_def ex_zone_def)
  show ?thesis
    using tunnel_failure_degrades [OF ex_lookup7 1 2 3 4 5 6 7] by (simp add: ex_tokens)
qed

subsection \<open>Tenants that do not resolve\<close>

text \<open>
  The lookup of the refresh is by id alone. An inactive tenant resolves: for the third
  tenant of the installation the refresh calls the gateway and commits an entry.
\<close>

theorem refresh_inactive_counterexample:
  "\<not> is_active ex_tenant3
 \<and> get_tenant_by_id ex_manager 9 = Inr (Some ex_tenant3)
 \<and> tenants_cache ex_manager 9 = None
 \<and> fst (refresh_tenant_domains ex_gateway ex_manager 9) = Inr ()
 \<and> tenants_cache (fst (snd (refresh_tenant_domains ex_gateway ex_manager 9))) 9 \<noteq> None
 \<and> snd (snd (refresh_tenant_domains ex_gateway ex_manager 9))
      = [ZonesList ''tok_ghi'', TunnelsList ''tok_ghi'' (PyStr ''acc1'')]"
proof -
  have "\<not> is_active ex_tenant3" by (simp add: ex_tenant3_def)
  moreover have "tenants_cache ex_manager 9 = None" by (simp add: ex_manager_def)
  moreover have "refresh_tenant_domains ex_gateway ex_manager 9 =
     (Inr (),
      ex_manager\<lparr>tenants_cache := (tenants_cache ex_manager)(9 \<mapsto>
        \<lparr>tenant = ex_tenant3, domains = [(PyStr ''acme.com'', ex_zone)],
         zones = [(PyStr ''z1ize'', ex_zone)], tunnels = [(PyStr ''t1'', ex_tunnel)],
         account_id = PyStr ''acc1''\<rparr>)\<rparr>,
      [ZonesList ''tok_ghi'', TunnelsList ''tok_ghi'' (PyStr ''acc1'')])"
    using refresh_resolved [OF ex_lookup9, of ex_gateway] by (simp add: ex_body9)
  ultimately show ?thesis using ex_lookup9 by simp
qed

lemma refresh_body_first_call:
  "\<exists>calls r. refresh_body g t = (ZonesList (cloudflare_token t) # calls, r)"
proof (cases "zones_list g (cloudflare_token t)")
  case (Inl e)
  then show ?thesis by (simp add: refresh_body_def Let_def)
next
  case (Inr zs)
  show ?thesis
  proof (cases "account_id_of_zones zs")
    case (Inl e)
    then show ?thesis using Inr by (simp add: refresh_body_def Let_def)
  next
    case acc: (Inr acc0)
    obtain c1 a where fa: "fetch_account_id g (cloudflare_token t) acc0 = (c1, a)"
      by (cases "fetch_account_id g (cloudflare_token t) acc0") auto
    obtain c2 ts where ft: "fetch_tunnels g (cloudflare_token t) a = (c2, ts)"
      by (cases "fetch_tunnels g (cloudflare_token t) a") auto
    show ?thesis using Inr acc fa ft by (simp add: refresh_body_def Let_def)
  qed
qed

lemma get_tenant_by_id_row:
  assumes "SessionLocal s = Some db" and "id_in_range (dialect db) tid"
    and "filter (\<lambda>r. tenant_id r = tid) (tenants db) = [t]"
  shows "get_tenant_by_id s tid = Inr (Some t)"
  using assms by (simp add: get_tenant_by_id_def)

lemma get_tenant_by_id_missing:
  assumes "SessionLocal s = None
         \<or> (\<exists>d. SessionLocal s = Some d \<and> id_in_range (dialect d) tid
                \<and> tid \<notin> tenant_id ` set (tenants d))"
  shows "get_tenant_by_id s tid = Inr None"
proof (cases "SessionLocal s")
  case None
  then show ?thesis by (simp add: get_tenant_by_id_def)
next
  case (Some db)
  then have r: "id_in_range (dialect db) tid" and "tid \<notin> tenant_id ` set (tenants db)"
    using assms by auto
  then have "filter (\<lambda>r. tenant_id r = tid) (tenants db) = []"
    by (auto simp: filter_empty_conv)
  then show ?thesis using Some r by (simp add: get_tenant_by_id_def)
qed

lemma get_tenant_by_id_out_of_range:
  assumes "SessionLocal s = Some db" and "\<not> id_in_range (dialect db) tid"
  shows "get_tenant_by_id s tid = Inl (bind_error (dialect db))"
  using assms by (simp add: get_tenant_by_id_def)

text \<open>
  Claim C7, amended. For a tenant id that does not resolve, because no session factory is
  set or because the id is one the engine can bind and no row of \<^verbatim>\<open>tenants\<close> has it, the
  refresh returns without raising, makes no gateway call and leaves the manager, and so
  the cache mapping, unchanged. The lookup is by id alone: for the row with that id, active
  or not, the refresh calls the zone listing first and then commits the entry built from
  the answers or raises again what the block raised. For an id outside the engine's
  integer range the lookup itself raises, and the refresh with it, before any gateway
  call and with the manager unchanged.
\<close>

theorem refresh_unknown_tenant:
  "(SessionLocal s = None
      \<or> (\<exists>d. SessionLocal s = Some d \<and> id_in_range (dialect d) tid
             \<and> tid \<notin> tenant_id ` set (tenants d))
    \<longrightarrow> refresh_tenant_domains g s tid = (Inr (), s, []))
 \<and> (SessionLocal s = Some db \<and> id_in_range (dialect db) tid
      \<and> filter (\<lambda>r. tenant_id r = tid) (tenants db) = [t]
    \<longrightarrow> (\<exists>calls r. refresh_body g t = (ZonesList (cloudflare_token t) # calls, r)
          \<and> refresh_tenant_domains g s tid =
              (case r of
                 Inl e \<Rightarrow> (Inl e, s, ZonesList (cloudflare_token t) # calls)
               | Inr entry \<Rightarrow>
                   (Inr (), s\<lparr>tenants_cache := (tenants_cache s)(tid \<mapsto> entry)\<rparr>,
                    ZonesList (cloudflare_token t) # calls))))
 \<and> (SessionLocal s = Some db \<and> \<not> id_in_range (dialect db) tid
    \<longrightarrow> refresh_tenant_domains g s tid = (Inl (bind_error (dialect db)), s, []))"
proof (intro conjI impI)
  assume "SessionLocal s = None
      \<or> (\<exists>d. SessionLocal s = Some d \<and> id_in_range (dialect d) tid
             \<and> tid \<notin> tenant_id ` set (tenants d))"
  then have "get_tenant_by_id s tid = Inr None" by (rule get_tenant_by_id_missing)
  then show "refresh_tenant_domains g s tid = (Inr (), s, [])"
    by (simp add: refresh_tenant_domains_def)
next
  assume h: "SessionLocal s = Some db \<and> id_in_range (dialect db) tid
      \<and> filter (\<lambda>r. tenant_id r = tid) (tenants db) = [t]"
  then have row: "get_tenant_by_id s tid = Inr (Some t)"
    using get_tenant_by_id_row [of s db tid t] by simp
  obtain calls r where b: "refresh_body g t = (ZonesList (cloudflare_token t) # calls, r)"
    using refresh_body_first_call by blast
  have "refresh_tenant_domains g s tid =
              (case r of
                 Inl e \<Rightarrow> (Inl e, s, ZonesList (cloudflare_token t) # calls)
               | Inr entry \<Rightarrow>
                   (Inr (), s\<lparr>tenants_cache := (tenants_cache s)(tid \<mapsto> entry)\<rparr>,
                    ZonesList (cloudflare_token t) # calls))"
    using refresh_resolved [OF row, of g] b by (cases r) simp_all
  then show "\<exists>calls r. refresh_body g t = (ZonesList (cloudflare_token t) # calls, r)
          \<and> refresh_tenant_domains g s tid =
              (case r of
                 Inl e \<Rightarrow> (Inl e, s, ZonesList (cloudflare_token t) # calls)
               | Inr entry \<Rightarrow>
                   (Inr (), s\<lparr>tenants_cache := (tenants_cache s)(tid \<mapsto> entry)\<rparr>,
                    ZonesList (cloudflare_token t) # calls))"
    using b by blast
next
  assume "SessionLocal s = Some db \<and> \<not> id_in_range (dialect db) tid"
  then have "get_tenant_by_id s tid = Inl (bind_error (dialect db))"
    using get_tenant_by_id_out_of_range [of s db tid] by simp
  then show "refresh_tenant_domains g s tid = (Inl (bind_error (dialect db)), s, [])"
    by (simp add: refresh_tenant_domains_def)
qed

theorem refresh_unknown_tenant_witness:
  "refresh_tenant_domains ex_gateway ex_manager 10 = (Inr (), ex_manager, [])
 \<and> \<not> is_active ex_tenant3
 \<and> fst (refresh_tenant_domains ex_gateway ex_manager 9) = Inr ()
 \<and> snd (snd (refresh_tenant_domains ex_gateway ex_manager 9)) \<noteq> []
 \<and> refresh_tenant_domains ex_gateway ex_manager (2 ^ 63) = (Inl OverflowError, ex_manager, [])"
proof -
  have db: "SessionLocal ex_manager = Some ex_db" by (simp add: ex_manager_def)
  have d: "dialect ex_db = SQLite" by (simp add: ex_db_def)
  have a: "\<exists>d. SessionLocal ex_manager = Some d \<and> id_in_range (dialect d) 10
             \<and> 10 \<notin> tenant_id ` set (tenants d)"
    by (simp add: ex_defs)
  have b: "SessionLocal ex_manager = Some ex_db \<and> id_in_range (dialect ex_db) 9
      \<and> filter (\<lambda>r. tenant_id r = 9) (tenants ex_db) = [ex_tenant3]"
    by (simp add: ex_defs)
  have c: "SessionLocal ex_manager = Some ex_db \<and> \<not> id_in_range (dialect ex_db) (2 ^ 63)"
    by (simp add: ex_defs)
  have inactive: "\<not> is_active ex_tenant3" by (simp add: ex_tenant3_def)
  have 1: "refresh_tenant_domains ex_gateway ex_manager 10 = (Inr (), ex_manager, [])"
    using refresh_unknown_tenant [of ex_manager 10 ex_gateway ex_db ex_tenant3] a by blast
  obtain calls r where
    r: "refresh_body ex_gateway ex_tenant3 = (ZonesList (cloudflare_token ex_tenant3) # calls, r)"
    and v: "refresh_tenant_domains ex_gateway ex_manager 9 =
              (case r of
                 Inl e \<Rightarrow> (Inl e, ex_manager, ZonesList (cloudflare_token ex_tenant3) # calls)
               | Inr entry \<Rightarrow>
                   (Inr (), ex_manager\<lparr>tenants_cache := (tenants_cache ex_manager)(9 \<mapsto> entry)\<rparr>,
                    ZonesList (cloudflare_token ex_tenant3) # calls))"
    using refresh_unknown_tenant [of ex_manager 9 ex_gateway ex_db ex_tenant3] b by blast
  have "\<exists>entry. r = Inr entry" using r by (auto simp: ex_body9)
  then have 2: "fst (refresh_tenant_domains ex_gateway ex_manager 9) = Inr ()"
    and 3: "snd (snd (refresh_tenant_domains ex_gateway ex_manager 9)) \<noteq> []"
    unfolding v by auto
  have 4: "refresh_tenant_domains ex_gateway ex_manager (2 ^ 63) = (Inl OverflowError, ex_manager, [])"
    using refresh_unknown_tenant [of ex_manager "2 ^ 63" ex_gateway ex_db ex_tenant3] c d by simp
  show ?thesis using 1 inactive 2 3 4 by simp
qed

subsection \<open>The committed entry\<close>

text \<open>
  Two zones with one name and two ids leave two keys in \<^verbatim>\<open>zones\<close> and one in
  \<^verbatim>\<open>domains\<close>: the later zone overwrites the earlier one under the shared name.
\<close>

theorem equal_cardinality_counterexample:
  "fst (refresh_tenant_domains same_name_gateway ex_manager 7) = Inr ()
 \<and> tenants_cache (fst (snd (refresh_tenant_domains same_name_gateway ex_manager 7))) 7 =
     Some \<lparr>tenant = ex_tenant1, domains = [(PyStr ''x.com'', zone_b)],
           zones = [(PyStr ''a'', zone_a), (PyStr ''b'', zone_b)], tunnels = [],
           account_id = PyNone\<rparr>
 \<and> length (zones (the (tenants_cache
       (fst (snd (refresh_tenant_domains same_name_gateway ex_manager 7))) 7))) = 2
 \<and> length (domains (the (tenants_cache
       (fst (snd (refresh_tenant_domains same_name_gateway ex_manager 7))) 7))) = 1"
  using refresh_resolved [OF ex_lookup7, of same_name_gateway] by (simp add: same_name_body)

text \<open>
  Claim C5, amended. After a successful refresh of a tenant that resolves, both indices of
  the entry come from the one zone listing of that call: every zone stored under an id is
  a zone of the listing whose name is a key of \<^verbatim>\<open>domains\<close>, every zone stored under a name
  is a zone of the listing whose id is a key of \<^verbatim>\<open>zones\<close>, and no key occurs twice. The
  two indices have the same number of keys when ids and names of the listed zones
  correspond one to one; with a repeated key the later zone wins and the numbers can
  differ. The entry is computed from the tenant record and the gateway's answers alone
  and replaces whatever the cache held for the tenant.
\<close>

theorem cache_entry_indices:
  assumes "get_tenant_by_id s tid = Inr (Some t)"
    and "refresh_tenant_domains g s tid = (Inr (), s', calls)"
  shows "\<exists>entry zs zl.
       zones_list g (cloudflare_token t) = Inr zs \<and> as_list zs = Inr zl
     \<and> refresh_body g t = (calls, Inr entry)
     \<and> s' = s\<lparr>tenants_cache := (tenants_cache s)(tid \<mapsto> entry)\<rparr>
     \<and> (\<forall>k z. (k, z) \<in> set (zones entry) \<longrightarrow>
            z \<in> set zl \<and> py_getattr z ''id'' = Inr k
          \<and> (\<exists>n. py_getattr z ''name'' = Inr n \<and> n \<in> fst ` set (domains entry)))
     \<and> (\<forall>n z. (n, z) \<in> set (domains entry) \<longrightarrow>
            z \<in> set zl \<and> py_getattr z ''name'' = Inr n
          \<and> (\<exists>k. py_getattr z ''id'' = Inr k \<and> k \<in> fst ` set (zones entry)))
     \<and> distinct (map fst (zones entry)) \<and> distinct (map fst (domains entry))
     \<and> (ids_match_names zl \<longrightarrow> length (zones entry) = length (domains entry))"
proof -
  obtain entry where body: "refresh_body g t = (calls, Inr entry)"
    and s': "s' = s\<lparr>tenants_cache := (tenants_cache s)(tid \<mapsto> entry)\<rparr>"
    using refresh_committed [OF assms] by blast
  obtain zs ts acc where zs: "zones_list g (cloudflare_token t) = Inr zs"
    and build: "build_entry t zs ts acc = Inr entry"
    using refresh_body_parts [OF body] by blast
  obtain zl where zl: "as_list zs = Inr zl"
    and ix: "index_zones zl [] [] = Inr (zones entry, domains entry)"
    using build_entry_parts [OF build] by blast
  note v = index_zones_values [OF ix]
  have a: "z \<in> set zl \<and> py_getattr z ''id'' = Inr k
          \<and> (\<exists>n. py_getattr z ''name'' = Inr n \<and> n \<in> fst ` set (domains entry))"
    if "(k, z) \<in> set (zones entry)" for k z
  proof -
    have z: "z \<in> set zl" "py_hasattr z ''id''" "py_hasattr z ''name''" "py_getattr z ''id'' = Inr k"
      using v(1) that by blast+
    have "py_getattr z ''name'' = Inr (the_attr ''name'' z)"
      using getattr_the_attr [OF z(3)] by simp
    moreover have "the_attr ''name'' z \<in> fst ` set (domains entry)"
      using v(3) z(1,2,3) by blast
    ultimately show ?thesis using z(1,4) by blast
  qed
  have b: "z \<in> set zl \<and> py_getattr z ''name'' = Inr n
          \<and> (\<exists>k. py_getattr z ''id'' = Inr k \<and> k \<in> fst ` set (zones entry))"
    if "(n, z) \<in> set (domains entry)" for n z
  proof -
    have z: "z \<in> set zl" "py_hasattr z ''id''" "py_hasattr z ''name''" "py_getattr z ''name'' = Inr n"
      using v(2) that by blast+
    have "py_getattr z ''id'' = Inr (the_attr ''id'' z)"
      using getattr_the_attr [OF z(2)] by simp
    moreover have "the_attr ''id'' z \<in> fst ` set (zones entry)"
      using v(3) z(1,2,3) by blast
    ultimately show ?thesis using z(1,4) by blast
  qed
  have d: "distinct (map fst (zones entry)) \<and> distinct (map fst (domains entry))"
    using index_zones_distinct [OF ix] by simp
  have c: "length (zones entry) = length (domains entry)" if "ids_match_names zl"
  proof -
    have "map snd (zones entry) = map snd (domains entry)"
      using ix that by (rule index_zones_matched)
    then have "length (map snd (zones entry)) = length (map snd (domains entry))" by simp
    then show ?thesis by simp
  qed
  show ?thesis
  proof (intro exI [of _ entry] exI [of _ zs] exI [of _ zl] conjI)
    show "zones_list g (cloudflare_token t) = Inr zs" by (rule zs)
    show "as_list zs = Inr zl" by (rule zl)
    show "refresh_body g t = (calls, Inr entry)" by (rule body)
    show "s' = s\<lparr>tenants_cache := (tenants_cache s)(tid \<mapsto> entry)\<rparr>" by (rule s')
    show "\<forall>k z. (k, z) \<in> set (zones entry) \<longrightarrow>
            z \<in> set zl \<and> py_getattr z ''id'' = Inr k
          \<and> (\<exists>n. py_getattr z ''name'' = Inr n \<and> n \<in> fst ` set (domains entry))"
      using a by blast
    show "\<forall>n z. (n, z) \<in> set (domains entry) \<longrightarrow>
            z \<in> set zl \<and> py_getattr z ''name'' = Inr n
          \<and> (\<exists>k. py_getattr z ''id'' = Inr k \<and> k \<in> fst ` set (zones entry))"
      using b by blast
    show "distinct (map fst (zones entry))" using d by simp
    show "distinct (map fst (domains entry))" using d by simp
    show "ids_match_names zl \<longrightarrow> length (zones entry) = length (domains entry)"
      using c by blast
  qed
qed

theorem cache_entry_indices_witness:
  "\<exists>entry. tenants_cache (fst (snd (refresh_tenant_domains ex_gateway ex_manager 7))) 7 = Some entry
     \<and> length (zones entry) = length (domains entry)"
proof -
  have m: "ids_match_names [ex_zone]" by (simp add: ids_match_names_def)
  have l: "as_list (ex_page [ex_zone]) = Inr [ex_zone]"
    by (simp add: as_list_def truthy_attr_def ex_page_def)
  have z: "zones_list ex_gateway (cloudflare_token ex_tenant1) = Inr (ex_page [ex_zone])"
    by (simp add: ex_gateway_def)
  from cache_entry_indices [OF ex_lookup7 ex_refresh] obtain entry zs zl where r:
    "zones_list ex_gateway (cloudflare_token ex_tenant1) = Inr zs" "as_list zs = Inr zl"
    "fst (snd (refresh_tenant_domains ex_gateway ex_manager 7))
       = ex_manager\<lparr>tenants_cache := (tenants_cache ex_manager)(7 \<mapsto> entry)\<rparr>"
    "ids_match_names zl \<longrightarrow> length (zones entry) = length (domains entry)"
    unfolding ex_refresh by auto
  have "zl = [ex_zone]" using r(1,2) z l by simp
  then have "length (zones entry) = length (domains entry)" using r(4) m by simp
  then show ?thesis using r(3) by simp
qed

text \<open>
  Two zones with one id and two names: \<^verbatim>\<open>zones\<close> keeps the later zone only, \<^verbatim>\<open>domains\<close>
  keeps both, so the two indices do not hold the same zone objects.
\<close>

theorem same_zone_set_counterexample:
  "fst (refresh_tenant_domains same_id_gateway ex_manager 7) = Inr ()
 \<and> tenants_cache (fst (snd (refresh_tenant_domains same_id_gateway ex_manager 7))) 7 =
     Some \<lparr>tenant = ex_tenant1,
           domains = [(PyStr ''x.com'', zone_a), (PyStr ''y.com'', zone_a')],
           zones = [(PyStr ''a'', zone_a')], tunnels = [], account_id = PyNone\<rparr>
 \<and> snd ` set (zones (the (tenants_cache
       (fst (snd (refresh_tenant_domains same_id_gateway ex_manager 7))) 7)))
   \<noteq> snd ` set (domains (the (tenants_cache
       (fst (snd (refresh_tenant_domains same_id_gateway ex_manager 7))) 7)))"
proof -
  have r: "refresh_tenant_domains same_id_gateway ex_manager 7 =
     (Inr (),
      ex_manager\<lparr>tenants_cache := (tenants_cache ex_manager)(7 \<mapsto>
        \<lparr>tenant = ex_tenant1,
         domains = [(PyStr ''x.com'', zone_a), (PyStr ''y.com'', zone_a')],
         zones = [(PyStr ''a'', zone_a')], tunnels = [], account_id = PyNone\<rparr>)\<rparr>,
      [ZonesList ''tok_abc'', AccountsList ''tok_abc''])"
    using refresh_resolved [OF ex_lookup7, of same_id_gateway] by (simp add: same_id_body)
  have ne: "zone_a \<noteq> zone_a'" by (simp add: zone_a_def zone_a'_def)
  show ?thesis unfolding r using ne by auto
qed

text \<open>
  Claim C10, amended. In every entry committed by a refresh, the zones stored in either
  index are zones of the listing that carry both \<^verbatim>\<open>id\<close> and \<^verbatim>\<open>name\<close>, so a zone lacking one
  of them is in neither index; every listed zone that carries both has its id among the
  keys of \<^verbatim>\<open>zones\<close> and its name among the keys of \<^verbatim>\<open>domains\<close>; every tunnel stored
  carries an \<^verbatim>\<open>id\<close>. The two zone indices hold the same zone objects when ids and names
  of the listed zones correspond one to one; with a repeated key they can differ.
\<close>

theorem cache_entry_well_shaped:
  assumes "get_tenant_by_id s tid = Inr (Some t)"
    and "refresh_tenant_domains g s tid = (Inr (), s', calls)"
  shows "\<exists>entry zs zl.
       zones_list g (cloudflare_token t) = Inr zs \<and> as_list zs = Inr zl
     \<and> tenants_cache s' tid = Some entry
     \<and> (\<forall>k z. (k, z) \<in> set (zones entry) \<union> set (domains entry) \<longrightarrow>
            z \<in> set zl \<and> py_hasattr z ''id'' \<and> py_hasattr z ''name'')
     \<and> (\<forall>z\<in>set zl. py_hasattr z ''id'' \<and> py_hasattr z ''name'' \<longrightarrow>
            (\<exists>k. py_getattr z ''id'' = Inr k \<and> k \<in> fst ` set (zones entry))
          \<and> (\<exists>n. py_getattr z ''name'' = Inr n \<and> n \<in> fst ` set (domains entry)))
     \<and> (\<forall>k x. (k, x) \<in> set (tunnels entry) \<longrightarrow> py_hasattr x ''id'')
     \<and> (ids_match_names zl \<longrightarrow> map snd (zones entry) = map snd (domains entry))"
proof -
  obtain entry where body: "refresh_body g t = (calls, Inr entry)"
    and s': "s' = s\<lparr>tenants_cache := (tenants_cache s)(tid \<mapsto> entry)\<rparr>"
    using refresh_committed [OF assms] by blast
  obtain zs ts acc where zs: "zones_list g (cloudflare_token t) = Inr zs"
    and build: "build_entry t zs ts acc = Inr entry"
    using refresh_body_parts [OF body] by blast
  obtain zl tls where zl: "as_list zs = Inr zl"
    and ix: "index_zones zl [] [] = Inr (zones entry, domains entry)"
    and it: "index_tunnels tls [] = Inr (tunnels entry)"
    using build_entry_parts [OF build] by blast
  note v = index_zones_values [OF ix]
  have cache: "tenants_cache s' tid = Some entry" using s' by simp
  have a: "z \<in> set zl \<and> py_hasattr z ''id'' \<and> py_hasattr z ''name''"
    if "(k, z) \<in> set (zones entry) \<union> set (domains entry)" for k z
    using that v(1,2) by blast
  have b: "(\<exists>k. py_getattr z ''id'' = Inr k \<and> k \<in> fst ` set (zones entry))
          \<and> (\<exists>n. py_getattr z ''name'' = Inr n \<and> n \<in> fst ` set (domains entry))"
    if z: "z \<in> set zl" and h: "py_hasattr z ''id'' \<and> py_hasattr z ''name''" for z
  proof -
    have "py_getattr z ''id'' = Inr (the_attr ''id'' z)"
        "py_getattr z ''name'' = Inr (the_attr ''name'' z)"
      using h getattr_the_attr [of z "''id''"] getattr_the_attr [of z "''name''"] by simp_all
    moreover have "the_attr ''id'' z \<in> fst ` set (zones entry)"
        "the_attr ''name'' z \<in> fst ` set (domains entry)"
      using v(3) z h by blast+
    ultimately show ?thesis by blast
  qed
  have c: "py_hasattr x ''id''" if "(k, x) \<in> set (tunnels entry)" for k x
    using index_tunnels_stored [OF it] that by auto
  have d: "map snd (zones entry) = map snd (domains entry)" if "ids_match_names zl"
    using ix that by (rule index_zones_matched)
  show ?thesis
  proof (intro exI [of _ entry] exI [of _ zs] exI [of _ zl] conjI)
    show "zones_list g (cloudflare_token t) = Inr zs" by (rule zs)
    show "as_list zs = Inr zl" by (rule zl)
    show "tenants_cache s' tid = Some entry" by (rule cache)
    show "\<forall>k z. (k, z) \<in> set (zones entry) \<union> set (domains entry) \<longrightarrow>
            z \<in> set zl \<and> py_hasattr z ''id'' \<and> py_hasattr z ''name''"
      using a by blast
    show "\<forall>z\<in>set zl. py_hasattr z ''id'' \<and> py_hasattr z ''name'' \<longrightarrow>
            (\<exists>k. py_getattr z ''id'' = Inr k \<and> k \<in> fst ` set (zones entry))
          \<and> (\<exists>n. py_getattr z ''name'' = Inr n \<and> n \<in> fst ` set (domains entry))"
      using b by blast
    show "\<forall>k x. (k, x) \<in> set (tunnels entry) \<longrightarrow> py_hasattr x ''id''"
      using c by blast
    show "ids_match_names zl \<longrightarrow> map snd (zones entry) = map snd (domains entry)"
      using d by blast
  qed
qed

theorem cache_entry_well_shaped_witness:
  "\<exists>entry. tenants_cache (fst (snd (refresh_tenant_domains ex_gateway ex_manager 7))) 7 = Some entry
     \<and> map snd (zones entry) = map snd (domains entry)"
proof -
  have m: "ids_match_names [ex_zone]" by (simp add: ids_match_names_def)
  have l: "as_list (ex_page [ex_zone]) = Inr [ex_zone]"
    by (simp add: as_list_def truthy_attr_def ex_page_def)
  have z: "zones_list ex_gateway (cloudflare_token ex_tenant1) = Inr (ex_page [ex_zone])"
    by (simp add: ex_gateway_def)
  from cache_entry_well_shaped [OF ex_lookup7 ex_refresh] obtain entry zs zl where r:
    "zones_list ex_gateway (cloudflare_token ex_tenant1) = Inr zs" "as_list zs = Inr zl"
    "tenants_cache (fst (snd (refresh_tenant_domains ex_gateway ex_manager 7))) 7 = Some entry"
    "ids_match_names zl \<longrightarrow> map snd (zones entry) = map snd (domains entry)"
    unfolding ex_refresh by auto
  have "zl = [ex_zone]" using r(1,2) z l by simp
  then have "map snd (zones entry) = map snd (domains entry)" using r(4) m by simp
  then show ?thesis using r(3) by blast
qed

end
